theory Spec2Isabelle
  imports Main "HOL-Library.Word"
begin

section \<open>Startup and shutdown of the Swipp daemon (init.cpp, collectionhashing.h)\<close>

text \<open>
  The development follows \<open>InitializeCollections\<close>, \<open>AppInit2\<close> and \<open>Shutdown\<close> of the
  daemon's init file statement by statement. Global variables of the program are the
  fields of one record \<open>node\<close>, and so are the locals of \<open>AppInit2\<close> that are read
  again later (\<open>fDisableWallet\<close>, \<open>strWalletFileName\<close>, \<open>strErrors\<close>) and the
  shutdown lock; every call into another translation unit (util, net,
  wallet, txdb, darksend) is either an event appended to \<open>trace\<close> or, when the code
  branches on its result, a field of the record \<open>collab\<close> that fixes the result of
  that call. Printed output (\<open>LogPrintf\<close>, \<open>InitWarning\<close>, the text of \<open>InitError\<close>)
  and the platform set-up (signal handlers, umask, DEP) are left out.
\<close>

subsection \<open>Data\<close>

type_synonym args = "string \<rightharpoonup> string"
type_synonym multiargs = "string \<Rightarrow> string list"

datatype Network = NET_UNROUTABLE | NET_IPV4 | NET_IPV6 | NET_TOR

text \<open>
  A \<open>CService\<close> is kept as the expression that built it: \<open>CService(str, port)\<close>,
  \<open>CService(str, GetListenPort(), fNameLookup)\<close>, \<open>CService(str)\<close>, or one of the two
  wildcard addresses on the listen port.
\<close>

datatype CService =
    CService_port string nat
  | CService_listen string
  | CService_plain string
  | CService_in6addr_any
  | CService_inaddr_any

record COutPoint =
  op_hash :: "256 word"
  op_n :: "32 word"

type_synonym stake_key = "COutPoint \<times> 32 word"

text \<open>
  A \<open>google::dense_hash_set\<close> of stake keys: its two sentinel keys (\<open>None\<close> is a
  sentinel that has not been configured) and its slots. Every slot holds a key; a slot
  that holds the empty key has never been used, a slot that holds the deleted key has
  been vacated.
\<close>

record dense_hash_set =
  empty_key :: "stake_key option"
  deleted_key :: "stake_key option"
  slots :: "stake_key list"

datatype set_error = NoEmptyKey | InsertEmptyKey | InsertDeletedKey | NoFreeSlot

type_synonym blockptr = "nat option"
type_synonym CBlockLocator = "nat list"

datatype VerifyResult = VERIFY_OK | RECOVER_OK | RECOVER_FAIL

datatype DBErrors =
  DB_LOAD_OK | DB_CORRUPT | DB_NONCRITICAL_ERROR | DB_TOO_NEW | DB_LOAD_FAIL | DB_NEED_REWRITE

datatype load_error =
    WalletCorrupted
  | WalletTooNew
  | WalletNeedsRewrite
  | WalletLoadError
  | CannotDowngradeWallet
  | CannotWriteDefaultAddress

datatype init_error =
    InvalidTestnetRegtest
  | UnsupportedSocks
  | InvalidAmountPaytxfee string
  | InvalidAmountMininput string
  | SanityCheckFailed
  | WalletOutsideDataDir string
  | CannotObtainLock
  | WrongMasternodePaymentsKey
  | WrongSporkKey
  | ErrorInitializingWalletDbEnv
  | WalletSalvageFailed
  | UnknownOnlynet string
  | InvalidProxyAddress string
  | InvalidTorAddress "string option"
  | CannotResolveBind string
  | FailedToListen
  | CannotResolveExternalip string
  | InvalidAmountReservebalance
  | ErrorLoadingBlockDatabase
  | WalletErrors "load_error list"
  | InvalidMasternodeAddr string
  | InvalidMasternodePrivkey
  | MissingMasternodePrivkey
  | MasternodeInLitemode

text \<open>
  How \<open>AppInit2\<close> leaves: through \<open>InitError(str)\<close>, through \<open>InitError(str, EEXIST)\<close>,
  through a bare \<open>return false\<close>, or through the last line \<open>return !fRequestShutdown\<close>.
\<close>

datatype ret =
    InitError init_error
  | InitError_EEXIST init_error
  | ReturnFalse
  | ReturnValue bool

datatype util_call =
    ShrinkDebugFile
  | RenameDatabase
  | PrintBlockTree
  | PrintBlock string
  | StartShutdown
  | RenameThread
  | RemovePidFile
  | RebuildAddressIndex

datatype net_call =
    RegisterNodeSignals
  | SetReachable Network
  | BindListenPort CService
  | AddLocal CService
  | AddOneShot string
  | AddrmanRead
  | SecureMsgStart bool bool
  | SecureMsgShutdown
  | AddTransactionsUpdated
  | StartNode
  | StopNode

datatype wallet_call =
    SetMinVersionLatest
  | SetMaxVersion int
  | SetDefaultKey
  | RegisterWallet
  | SetBestChain blockptr
  | ScanForWalletTransactions blockptr
  | ReacceptWalletTransactions
  | BitdbFlush bool
  | UnregisterAllWallets
  | DeleteWallet

datatype rpc_call = InitRPCMining | StartRPCThreads | StopRPCThreads | ShutdownRPCMining

datatype darksend_call =
    SetMasternodeKey string
  | SetMinBlockSpacing int
  | PushDenominations
  | InitCollateralAddress

datatype thread =
    ThreadImport "string list"
  | ThreadCheckDarkSendPool
  | ThreadStakeMiner
  | ThreadFlushWalletDB

text \<open>One entry of the trace: a call that leaves this file, in the order it is made.\<close>

datatype event =
    Util util_call
  | Net net_call
  | Wallet wallet_call
  | Rpc rpc_call
  | Darksend darksend_call
  | CreateThread thread

record node =
  mapArgs :: args
  mapMultiArgs :: multiargs
  setStakeSeen :: dense_hash_set
  setStakeSeenOrphan :: dense_hash_set
  nNodeLifespan :: int
  fUseFastIndex :: bool
  nMinerSleep :: int
  nDerivationMethodIndex :: int
  fDebug :: bool
  fDebugSmsg :: bool
  fDebugBacktrace :: bool
  fNoSmsg :: bool
  fPrintToConsole :: bool
  fLogTimestamps :: bool
  fDisableWallet :: bool
  nConnectTimeout :: int
  nTransactionFee :: int
  fConfChange :: bool
  fMinimizeCoinAge :: bool
  nMinimumInputValue :: int
  strWalletFileName :: string
  fOnlyTor :: bool
  vfLimited :: "Network \<Rightarrow> bool"
  proxyInfo :: "Network \<rightharpoonup> CService"
  nameProxy :: "CService option"
  fNoListen :: bool
  fDiscover :: bool
  fNameLookup :: bool
  nReserveBalance :: int
  pindexBest :: blockptr
  pindexGenesisBlock :: blockptr
  pwalletMain :: "string option"
  strErrors :: "load_error list"
  nWalletDBUpdated :: int
  fRequestShutdown :: bool
  fMasterNode :: bool
  strMasterNodeAddr :: string
  strMasterNodePrivKey :: string
  fEnableDarksend :: bool
  nDarksendRounds :: int
  nLiquidityProvider :: int
  nAnonymizeSwippAmount :: int
  nInstantXDepth :: int
  fLiteMode :: bool
  cs_Shutdown :: bool
  trace :: "event list"

text \<open>
  The results of the calls whose code is in other translation units. \<open>interpretBool\<close>
  and \<open>atoi\<close> are the readings \<open>GetBoolArg\<close> and \<open>GetArg\<close> make of a supplied value
  (for \<open>atoi\<close>, the number as it arrives in the receiving variable); \<open>COutPoint0\<close> is
  the default-constructed \<open>COutPoint()\<close>; \<open>num_buckets\<close> is the number of slots a
  set starts with; \<open>hash_range\<close> and \<open>hash_combine\<close> are the two boost functions the
  hash of a stake key is built from; \<open>ENABLE_WALLET\<close> is the compile-time switch.
\<close>

record collab =
  ENABLE_WALLET :: bool
  interpretBool :: "string \<Rightarrow> bool"
  atoi :: "string \<Rightarrow> int"
  ParseMoney :: "string \<Rightarrow> int option"
  COutPoint0 :: COutPoint
  num_buckets :: nat
  hash_range :: "256 word \<Rightarrow> 64 word"
  hash_combine :: "64 word \<Rightarrow> 32 word \<Rightarrow> 64 word"
  SelectParamsFromCommandLine :: bool
  TestNet :: bool
  ECC_InitSanityCheck :: bool
  plainFilename :: "string \<Rightarrow> bool"
  lock_try_lock :: bool
  masternodePayments_SetPrivKey :: "string \<Rightarrow> bool"
  sporkManager_SetPrivKey :: "string \<Rightarrow> bool"
  bitdb_Open_first :: bool
  bitdb_Open_retry :: bool
  CWalletDB_Recover :: bool
  walletFileExists :: bool
  bitdb_Verify :: VerifyResult
  ParseNetwork :: "string \<Rightarrow> Network"
  IsValid :: "CService \<Rightarrow> bool"
  GetNetwork :: "CService \<Rightarrow> Network"
  Lookup :: "string \<Rightarrow> CService option"
  BindListenPort_result :: "CService \<Rightarrow> bool"
  LoadBlockIndex :: "(blockptr \<times> blockptr) option"
  signalDuringLoad :: bool
  LoadWallet :: "DBErrors \<times> bool"
  CLIENT_VERSION :: int
  wallet_GetVersion :: "bool \<Rightarrow> int"
  GetKeyFromPool :: bool
  SetAddressBookName :: bool
  ReadBestBlock :: "CBlockLocator option"
  GetBlockIndex :: "CBlockLocator \<Rightarrow> blockptr"
  nHeight :: "nat \<Rightarrow> int"
  CheckDiskSpace :: bool
  darkSendSigner_SetKey :: "string \<Rightarrow> bool"
  signalBeforeReturn :: bool

subsection \<open>Reading and soft-setting options\<close>

definition count_arg :: "args \<Rightarrow> string \<Rightarrow> bool" where
  "count_arg m strArg = (case m strArg of None \<Rightarrow> False | Some _ \<Rightarrow> True)"

text \<open>
  Modelled from the spec: \<open>GetBoolArg\<close> and \<open>GetArg\<close> are defined in util.cpp, which is
  not among the sources. The option source is a mapping from option name to the supplied
  string; an option the operator did not supply reads as the default given at the call.
\<close>

definition GetBoolArg :: "collab \<Rightarrow> node \<Rightarrow> string \<Rightarrow> bool \<Rightarrow> bool" where
  "GetBoolArg e s strArg fDefault =
     (case mapArgs s strArg of None \<Rightarrow> fDefault | Some v \<Rightarrow> interpretBool e v)"

definition GetArg :: "collab \<Rightarrow> node \<Rightarrow> string \<Rightarrow> int \<Rightarrow> int" where
  "GetArg e s strArg nDefault =
     (case mapArgs s strArg of None \<Rightarrow> nDefault | Some v \<Rightarrow> atoi e v)"

definition GetArgStr :: "node \<Rightarrow> string \<Rightarrow> string \<Rightarrow> string" where
  "GetArgStr s strArg strDefault =
     (case mapArgs s strArg of None \<Rightarrow> strDefault | Some v \<Rightarrow> v)"

text \<open>
  Modelled from the spec: \<open>SoftSetArg\<close> and \<open>SoftSetBoolArg\<close> are defined in util.cpp,
  which is not among the sources. A soft-set assigns a default value to an option only
  if the operator did not explicitly provide one; the result tells whether it assigned.
  The values written are the ones the log lines of \<open>AppInit2\<close> announce
  (\<open>setting -listen=1\<close>, \<open>setting -listen=0\<close>).
\<close>

definition SoftSetArg :: "string \<Rightarrow> string \<Rightarrow> node \<Rightarrow> bool \<times> node" where
  "SoftSetArg strArg strValue s =
     (if count_arg (mapArgs s) strArg then (False, s)
      else (True, s\<lparr>mapArgs := (mapArgs s)(strArg \<mapsto> strValue)\<rparr>))"

definition SoftSetBoolArg :: "string \<Rightarrow> bool \<Rightarrow> node \<Rightarrow> bool \<times> node" where
  "SoftSetBoolArg strArg fValue s =
     (if fValue then SoftSetArg strArg ''1'' s else SoftSetArg strArg ''0'' s)"

definition emit :: "event \<Rightarrow> node \<Rightarrow> node" where
  "emit ev s = s\<lparr>trace := trace s @ [ev]\<rparr>"

subsection \<open>The seen-stake sets\<close>

text \<open>
  The hash of a stake key, from collectionhashing.h: the bytes of the outpoint's
  transaction hash are hashed as a range and the timestamp is combined into the result.
  The outpoint's index takes no part.
\<close>

definition hash_stake_key :: "collab \<Rightarrow> stake_key \<Rightarrow> 64 word" where
  "hash_stake_key e v = hash_combine e (hash_range e (op_hash (fst v))) (snd v)"

text \<open>
  Modelled from the spec: \<open>dense_hash_set\<close> is declared in a header that is not among
  the sources. It is an open-addressed hash set that needs two reserved key values, one
  meaning that a slot was never used (empty) and one meaning that a slot was vacated
  (deleted), so that probing can tell "not present" from "removed". Setting the empty key
  marks every slot as never used. A lookup probes from the slot the hash selects: a slot
  never used ends the search, a vacated slot is passed over, and only then is the slot's
  key compared with the key looked up. A key equal to a sentinel is not insertable; any
  other key goes into the first slot on its probe sequence that was never used or was
  vacated. How the table grows is not described and is left out: an insertion that finds
  no such slot is reported as \<open>NoFreeSlot\<close>.
\<close>

definition set_empty_key :: "collab \<Rightarrow> stake_key \<Rightarrow> dense_hash_set \<Rightarrow> dense_hash_set" where
  "set_empty_key e k st = st\<lparr>empty_key := Some k, slots := replicate (num_buckets e) k\<rparr>"

definition set_deleted_key :: "stake_key \<Rightarrow> dense_hash_set \<Rightarrow> dense_hash_set" where
  "set_deleted_key k st = st\<lparr>deleted_key := Some k\<rparr>"

definition first_slot :: "collab \<Rightarrow> dense_hash_set \<Rightarrow> stake_key \<Rightarrow> nat" where
  "first_slot e st key = unat (hash_stake_key e key) mod length (slots st)"

fun probe_find :: "dense_hash_set \<Rightarrow> stake_key \<Rightarrow> nat \<Rightarrow> nat \<Rightarrow> bool" where
  "probe_find st key pos 0 = False"
| "probe_find st key pos (Suc fuel) =
     (let slot = slots st ! (pos mod length (slots st))
      in if Some slot = empty_key st then False
         else if Some slot = deleted_key st then probe_find st key (pos + 1) fuel
         else if slot = key then True
         else probe_find st key (pos + 1) fuel)"

fun probe_free :: "dense_hash_set \<Rightarrow> nat \<Rightarrow> nat \<Rightarrow> nat option" where
  "probe_free st pos 0 = None"
| "probe_free st pos (Suc fuel) =
     (let i = pos mod length (slots st)
      in if Some (slots st ! i) = empty_key st \<or> Some (slots st ! i) = deleted_key st
         then Some i
         else probe_free st (pos + 1) fuel)"

definition count_key :: "collab \<Rightarrow> dense_hash_set \<Rightarrow> stake_key \<Rightarrow> bool" where
  "count_key e st key = probe_find st key (first_slot e st key) (length (slots st))"

definition insert_key :: "collab \<Rightarrow> dense_hash_set \<Rightarrow> stake_key \<Rightarrow> set_error + dense_hash_set" where
  "insert_key e st key =
     (case empty_key st of
        None \<Rightarrow> Inl NoEmptyKey
      | Some k \<Rightarrow>
          if key = k then Inl InsertEmptyKey
          else if Some key = deleted_key st then Inl InsertDeletedKey
          else if count_key e st key then Inr st
          else (case probe_free st (first_slot e st key) (length (slots st)) of
                  None \<Rightarrow> Inl NoFreeSlot
                | Some i \<Rightarrow> Inr (st\<lparr>slots := (slots st)[i := key]\<rparr>)))"

subsection \<open>InitializeCollections\<close>

definition InitializeCollections :: "collab \<Rightarrow> node \<Rightarrow> node" where
  "InitializeCollections e s =
     (let s1 = s\<lparr>setStakeSeen := set_empty_key e (COutPoint0 e, - 1) (setStakeSeen s)\<rparr>;
          s2 = s1\<lparr>setStakeSeenOrphan :=
                 set_empty_key e (COutPoint0 e, - 1) (setStakeSeenOrphan s1)\<rparr>;
          s3 = s2\<lparr>setStakeSeenOrphan :=
                 set_deleted_key (COutPoint0 e, - 1 - 1) (setStakeSeenOrphan s2)\<rparr>
      in s3)"

subsection \<open>AppInit2: parameter interaction\<close>

text \<open>Each rule is one \<open>if\<close> statement of the source, in the source's order.\<close>

definition ruleTestNet :: "collab \<Rightarrow> node \<Rightarrow> node" where
  "ruleTestNet e s = (if TestNet e then snd (SoftSetBoolArg ''-irc'' True s) else s)"

definition ruleBind :: "collab \<Rightarrow> node \<Rightarrow> node" where
  "ruleBind e s =
     (if count_arg (mapArgs s) ''-bind'' then snd (SoftSetBoolArg ''-listen'' True s) else s)"

definition ruleConnect :: "collab \<Rightarrow> node \<Rightarrow> node" where
  "ruleConnect e s =
     (if count_arg (mapArgs s) ''-connect'' \<and> mapMultiArgs s ''-connect'' \<noteq> []
      then snd (SoftSetBoolArg ''-listen'' False (snd (SoftSetBoolArg ''-dnsseed'' False s)))
      else s)"

definition ruleProxy :: "collab \<Rightarrow> node \<Rightarrow> node" where
  "ruleProxy e s =
     (if count_arg (mapArgs s) ''-proxy''
      then snd (SoftSetBoolArg ''-discover'' False (snd (SoftSetBoolArg ''-listen'' False s)))
      else s)"

definition ruleNoListen :: "collab \<Rightarrow> node \<Rightarrow> node" where
  "ruleNoListen e s =
     (if \<not> GetBoolArg e s ''-listen'' True
      then snd (SoftSetBoolArg ''-discover'' False (snd (SoftSetBoolArg ''-upnp'' False s)))
      else s)"

definition ruleExternalip :: "collab \<Rightarrow> node \<Rightarrow> node" where
  "ruleExternalip e s =
     (if count_arg (mapArgs s) ''-externalip''
      then snd (SoftSetBoolArg ''-discover'' False s) else s)"

definition ruleSalvagewallet :: "collab \<Rightarrow> node \<Rightarrow> node" where
  "ruleSalvagewallet e s =
     (if GetBoolArg e s ''-salvagewallet'' False
      then snd (SoftSetBoolArg ''-rescan'' True s) else s)"

definition interactionRules :: "collab \<Rightarrow> (node \<Rightarrow> node) list" where
  "interactionRules e =
     [ruleBind e, ruleConnect e, ruleProxy e, ruleNoListen e, ruleExternalip e,
      ruleSalvagewallet e]"

definition parameterInteraction :: "collab \<Rightarrow> node \<Rightarrow> node" where
  "parameterInteraction e s = foldl (\<lambda>s' rule. rule s') (ruleTestNet e s) (interactionRules e)"

subsection \<open>AppInit2: steps that may leave\<close>

text \<open>
  A step either leaves \<open>AppInit2\<close> with a return value (\<open>Inl\<close>, together with the state
  reached) or goes on in a new state (\<open>Inr\<close>).
\<close>

type_synonym step = "node \<Rightarrow> (ret \<times> node) + node"

definition leave :: "ret \<Rightarrow> node \<Rightarrow> (ret \<times> node) + node" where
  "leave r s = Inl (r, s)"

fun runSteps :: "step list \<Rightarrow> step" where
  "runSteps [] s = Inr s"
| "runSteps (f # fs) s = (case f s of Inl x \<Rightarrow> Inl x | Inr s' \<Rightarrow> runSteps fs s')"

text \<open>\<open>nNodeLifespan\<close> and \<open>nMinerSleep\<close> are unsigned: the number read is taken modulo 2^32.\<close>

definition stepEarlyArgs :: "collab \<Rightarrow> node \<Rightarrow> node" where
  "stepEarlyArgs e s =
     s\<lparr>nNodeLifespan := GetArg e s ''-addrlifespan'' 7 mod 4294967296,
       fUseFastIndex := GetBoolArg e s ''-fastindex'' True,
       nMinerSleep := GetArg e s ''-minersleep'' 500 mod 4294967296,
       nDerivationMethodIndex := 0\<rparr>"

definition stepSelectParams :: "collab \<Rightarrow> step" where
  "stepSelectParams e s =
     (if \<not> SelectParamsFromCommandLine e then leave (InitError InvalidTestnetRegtest) s
      else Inr s)"

definition stepDebug :: "collab \<Rightarrow> node \<Rightarrow> node" where
  "stepDebug e s =
     (let categories = mapMultiArgs s ''-debug'';
          s1 = s\<lparr>fDebug := (categories \<noteq> [])\<rparr>;
          s2 = (if GetBoolArg e s1 ''-nodebug'' False \<or> ''0'' \<in> set categories
                then s1\<lparr>fDebug := False\<rparr> else s1);
          s3 = (if fDebug s2 then s2\<lparr>fDebugSmsg := True\<rparr>
                else s2\<lparr>fDebugSmsg := GetBoolArg e s2 ''-debugsmsg'' False\<rparr>)
      in s3\<lparr>fDebugBacktrace := GetBoolArg e s3 ''-debugbacktrace'' False,
            fNoSmsg := GetBoolArg e s3 ''-nosmsg'' False\<rparr>)"

definition stepSocks :: "collab \<Rightarrow> step" where
  "stepSocks e s =
     (if count_arg (mapArgs s) ''-socks'' then leave (InitError UnsupportedSocks) s
      else Inr s)"

definition stepLogFlags :: "collab \<Rightarrow> node \<Rightarrow> node" where
  "stepLogFlags e s =
     (let s1 = s\<lparr>fPrintToConsole := GetBoolArg e s ''-printtoconsole'' False,
                 fLogTimestamps := GetBoolArg e s ''-logtimestamps'' False\<rparr>
      in if ENABLE_WALLET e
         then s1\<lparr>fDisableWallet := GetBoolArg e s1 ''-disablewallet'' False\<rparr> else s1)"

definition stepTimeout :: "collab \<Rightarrow> node \<Rightarrow> node" where
  "stepTimeout e s =
     (if count_arg (mapArgs s) ''-timeout''
      then (let nNewTimeout = GetArg e s ''-timeout'' 5000
            in if nNewTimeout > 0 \<and> nNewTimeout < 600000
               then s\<lparr>nConnectTimeout := nNewTimeout\<rparr> else s)
      else s)"

definition stepPaytxfee :: "collab \<Rightarrow> step" where
  "stepPaytxfee e s =
     (if ENABLE_WALLET e then
        (case mapArgs s ''-paytxfee'' of
           None \<Rightarrow> Inr s
         | Some v \<Rightarrow>
             (case ParseMoney e v of
                None \<Rightarrow> leave (InitError (InvalidAmountPaytxfee v)) s
              | Some a \<Rightarrow> Inr (s\<lparr>nTransactionFee := a\<rparr>)))
      else Inr s)"

definition stepCoinFlags :: "collab \<Rightarrow> node \<Rightarrow> node" where
  "stepCoinFlags e s =
     s\<lparr>fConfChange := GetBoolArg e s ''-confchange'' False,
       fMinimizeCoinAge := GetBoolArg e s ''-minimizecoinage'' False\<rparr>"

definition stepMininput :: "collab \<Rightarrow> step" where
  "stepMininput e s =
     (if ENABLE_WALLET e then
        (case mapArgs s ''-mininput'' of
           None \<Rightarrow> Inr s
         | Some v \<Rightarrow>
             (case ParseMoney e v of
                None \<Rightarrow> leave (InitError (InvalidAmountMininput v)) s
              | Some a \<Rightarrow> Inr (s\<lparr>nMinimumInputValue := a\<rparr>)))
      else Inr s)"

definition InitSanityCheck :: "collab \<Rightarrow> bool" where
  "InitSanityCheck e = (if \<not> ECC_InitSanityCheck e then False else True)"

definition stepSanity :: "collab \<Rightarrow> step" where
  "stepSanity e s =
     (if \<not> InitSanityCheck e then leave (InitError SanityCheckFailed) s else Inr s)"

definition stepWalletName :: "collab \<Rightarrow> step" where
  "stepWalletName e s =
     (if ENABLE_WALLET e then
        (let s1 = s\<lparr>strWalletFileName := GetArgStr s ''-wallet'' ''wallet.dat''\<rparr>
         in if \<not> plainFilename e (strWalletFileName s1)
            then leave (InitError (WalletOutsideDataDir (strWalletFileName s1))) s1
            else Inr s1)
      else Inr s)"

definition stepLock :: "collab \<Rightarrow> step" where
  "stepLock e s =
     (if \<not> lock_try_lock e then leave (InitError_EEXIST CannotObtainLock) s else Inr s)"

definition stepShrink :: "collab \<Rightarrow> node \<Rightarrow> node" where
  "stepShrink e s =
     (if GetBoolArg e s ''-shrinkdebugfile'' (\<not> fDebug s) then emit (Util ShrinkDebugFile) s
      else s)"

definition stepControlKeys :: "collab \<Rightarrow> step" where
  "stepControlKeys e s =
     (if count_arg (mapArgs s) ''-masternodepaymentskey''
         \<and> \<not> masternodePayments_SetPrivKey e (GetArgStr s ''-masternodepaymentskey'' [])
      then leave (InitError WrongMasternodePaymentsKey) s
      else if count_arg (mapArgs s) ''-sporkkey''
         \<and> \<not> sporkManager_SetPrivKey e (GetArgStr s ''-sporkkey'' [])
      then leave (InitError WrongSporkKey) s
      else Inr s)"

definition walletVerify :: "collab \<Rightarrow> step" where
  "walletVerify e s =
     (if GetBoolArg e s ''-salvagewallet'' False \<and> \<not> CWalletDB_Recover e
      then leave ReturnFalse s
      else if walletFileExists e \<and> bitdb_Verify e = RECOVER_FAIL
      then leave (InitError WalletSalvageFailed) s
      else Inr s)"

definition stepWalletDb :: "collab \<Rightarrow> step" where
  "stepWalletDb e s =
     (if ENABLE_WALLET e \<and> \<not> fDisableWallet s then
        (if \<not> bitdb_Open_first e then
           (let s1 = emit (Util RenameDatabase) s
            in if \<not> bitdb_Open_retry e
               then leave (InitError ErrorInitializingWalletDbEnv) s1
               else walletVerify e s1)
         else walletVerify e s)
      else Inr s)"

subsection \<open>AppInit2: network set-up\<close>

text \<open>
  Modelled from the spec: \<open>IsLimited\<close>, \<open>SetLimited\<close>, \<open>SetProxy\<close> and \<open>SetNameProxy\<close>
  are defined in net.cpp and netbase.cpp, which are not among the sources. Reachability
  is restricted per network class, and a proxy endpoint is registered per network class.
\<close>

definition IsLimited :: "node \<Rightarrow> Network \<Rightarrow> bool" where
  "IsLimited s net = vfLimited s net"

definition SetLimited :: "Network \<Rightarrow> node \<Rightarrow> node" where
  "SetLimited net s = s\<lparr>vfLimited := (vfLimited s)(net := True)\<rparr>"

definition SetProxy :: "Network \<Rightarrow> CService \<Rightarrow> node \<Rightarrow> node" where
  "SetProxy net addr s = s\<lparr>proxyInfo := (proxyInfo s)(net \<mapsto> addr)\<rparr>"

definition SetNameProxy :: "CService \<Rightarrow> node \<Rightarrow> node" where
  "SetNameProxy addr s = s\<lparr>nameProxy := Some addr\<rparr>"

fun onlynetLoop :: "collab \<Rightarrow> string list \<Rightarrow> Network list \<Rightarrow> node
    \<Rightarrow> (ret \<times> node) + (Network list \<times> node)" where
  "onlynetLoop e [] nets s = Inr (nets, s)"
| "onlynetLoop e (snet # rest) nets s =
     (let net = ParseNetwork e snet;
          s1 = (if net = NET_TOR then s\<lparr>fOnlyTor := True\<rparr> else s)
      in if net = NET_UNROUTABLE then Inl (InitError (UnknownOnlynet snet), s1)
         else onlynetLoop e rest (net # nets) s1)"

definition limitOthers :: "Network list \<Rightarrow> node \<Rightarrow> node" where
  "limitOthers nets s =
     foldl (\<lambda>s' net. if net \<notin> set nets then SetLimited net s' else s') s
       [NET_UNROUTABLE, NET_IPV4, NET_IPV6, NET_TOR]"

definition stepOnlynet :: "collab \<Rightarrow> step" where
  "stepOnlynet e s =
     (if count_arg (mapArgs s) ''-onlynet'' then
        (case onlynetLoop e (mapMultiArgs s ''-onlynet'') [] s of
           Inl x \<Rightarrow> Inl x
         | Inr (nets, s1) \<Rightarrow> Inr (limitOthers nets s1))
      else Inr s)"

text \<open>The locals \<open>addrProxy\<close> and \<open>fProxy\<close> go from the proxy block to the tor block.\<close>

definition proxyBlock :: "collab \<Rightarrow> node \<Rightarrow> (ret \<times> node) + (CService option \<times> node)" where
  "proxyBlock e s =
     (case mapArgs s ''-proxy'' of
        None \<Rightarrow> Inr (None, s)
      | Some v \<Rightarrow>
          (let addrProxy = CService_port v 9050
           in if \<not> IsValid e addrProxy then Inl (InitError (InvalidProxyAddress v), s)
              else
                (let s1 = (if \<not> IsLimited s NET_IPV4 then SetProxy NET_IPV4 addrProxy s else s);
                     s2 = (if \<not> IsLimited s1 NET_IPV6 then SetProxy NET_IPV6 addrProxy s1
                           else s1)
                 in Inr (Some addrProxy, SetNameProxy addrProxy s2))))"

definition torBlock :: "collab \<Rightarrow> CService option \<Rightarrow> step" where
  "torBlock e addrProxy s =
     (if \<not> (count_arg (mapArgs s) ''-tor'' \<and> mapArgs s ''-tor'' = Some ''0'')
         \<and> (addrProxy \<noteq> None \<or> count_arg (mapArgs s) ''-tor'')
      then
        (let addrOnion = (case mapArgs s ''-tor'' of
                            None \<Rightarrow> addrProxy
                          | Some v \<Rightarrow> Some (CService_port v 9050))
         in case addrOnion of
              None \<Rightarrow> leave (InitError (InvalidTorAddress (mapArgs s ''-tor''))) s
            | Some a \<Rightarrow>
                if \<not> IsValid e a then leave (InitError (InvalidTorAddress (mapArgs s ''-tor''))) s
                else Inr (emit (Net (SetReachable NET_TOR)) (SetProxy NET_TOR a s)))
      else Inr s)"

definition stepProxy :: "collab \<Rightarrow> step" where
  "stepProxy e s =
     (case proxyBlock e s of
        Inl x \<Rightarrow> Inl x
      | Inr (addrProxy, s1) \<Rightarrow> torBlock e addrProxy s1)"

definition Bind :: "collab \<Rightarrow> CService \<Rightarrow> bool \<Rightarrow> node \<Rightarrow> bool \<times> node" where
  "Bind e addr fError s =
     (if IsLimited s (GetNetwork e addr) then (False, s)
      else (BindListenPort_result e addr, emit (Net (BindListenPort addr)) s))"

fun bindLoop :: "collab \<Rightarrow> string list \<Rightarrow> bool \<Rightarrow> node \<Rightarrow> (ret \<times> node) + (bool \<times> node)" where
  "bindLoop e [] fBound s = Inr (fBound, s)"
| "bindLoop e (strBind # rest) fBound s =
     (case Lookup e strBind of
        None \<Rightarrow> Inl (InitError (CannotResolveBind strBind), s)
      | Some addrBind \<Rightarrow>
          (let (b, s1) = Bind e addrBind True s in bindLoop e rest (fBound \<or> b) s1))"

definition bindAny :: "collab \<Rightarrow> node \<Rightarrow> bool \<times> node" where
  "bindAny e s =
     (let (fBound6, s1) = (if \<not> IsLimited s NET_IPV6 then Bind e CService_in6addr_any False s
                           else (False, s));
          (fBound4, s2) = (if \<not> IsLimited s1 NET_IPV4
                           then Bind e CService_inaddr_any (\<not> fBound6) s1
                           else (False, s1))
      in (fBound6 \<or> fBound4, s2))"

definition stepListen :: "collab \<Rightarrow> step" where
  "stepListen e s =
     (let s1 = s\<lparr>fNoListen := \<not> GetBoolArg e s ''-listen'' True,
                 fDiscover := GetBoolArg e s ''-discover'' True,
                 fNameLookup := GetBoolArg e s ''-dns'' True\<rparr>
      in if \<not> fNoListen s1 then
           (case (if count_arg (mapArgs s1) ''-bind''
                  then bindLoop e (mapMultiArgs s1 ''-bind'') False s1
                  else Inr (bindAny e s1)) of
              Inl x \<Rightarrow> Inl x
            | Inr (fBound, s2) \<Rightarrow>
                if \<not> fBound then leave (InitError FailedToListen) s2 else Inr s2)
         else Inr s1)"

fun externalipLoop :: "collab \<Rightarrow> string list \<Rightarrow> step" where
  "externalipLoop e [] s = Inr s"
| "externalipLoop e (strAddr # rest) s =
     (if \<not> IsValid e (CService_listen strAddr)
      then Inl (InitError (CannotResolveExternalip strAddr), s)
      else externalipLoop e rest (emit (Net (AddLocal (CService_listen strAddr))) s))"

definition stepExternalip :: "collab \<Rightarrow> step" where
  "stepExternalip e s =
     (if count_arg (mapArgs s) ''-externalip''
      then externalipLoop e (mapMultiArgs s ''-externalip'') s
      else Inr s)"

definition stepReserveBalance :: "collab \<Rightarrow> step" where
  "stepReserveBalance e s =
     (if ENABLE_WALLET e then
        (case mapArgs s ''-reservebalance'' of
           None \<Rightarrow> Inr s
         | Some v \<Rightarrow>
             (case ParseMoney e v of
                None \<Rightarrow> leave (InitError InvalidAmountReservebalance) s
              | Some a \<Rightarrow> Inr (s\<lparr>nReserveBalance := a\<rparr>)))
      else Inr s)"

definition stepSeednodes :: "collab \<Rightarrow> node \<Rightarrow> node" where
  "stepSeednodes e s =
     foldl (\<lambda>s' strDest. emit (Net (AddOneShot strDest)) s') s (mapMultiArgs s ''-seednode'')"

subsection \<open>AppInit2: block index and wallet\<close>

definition stepLoadBlockIndexTest :: "collab \<Rightarrow> step" where
  "stepLoadBlockIndexTest e s =
     (if GetBoolArg e s ''-loadblockindextest'' False
      then leave ReturnFalse (emit (Util PrintBlockTree) s)
      else Inr s)"

text \<open>
  \<open>LoadBlockIndex\<close> sets the globals \<open>pindexBest\<close> and \<open>pindexGenesisBlock\<close>. The flag
  \<open>fRequestShutdown\<close> is volatile: a signal handler may have set it while the index
  was loading.
\<close>

definition stepLoadBlockIndex :: "collab \<Rightarrow> step" where
  "stepLoadBlockIndex e s =
     (case LoadBlockIndex e of
        None \<Rightarrow> leave (InitError ErrorLoadingBlockDatabase) s
      | Some (best, genesis) \<Rightarrow>
          (let s1 = s\<lparr>pindexBest := best, pindexGenesisBlock := genesis,
                      fRequestShutdown := (fRequestShutdown s \<or> signalDuringLoad e)\<rparr>
           in if fRequestShutdown s1 then leave ReturnFalse s1 else Inr s1))"

definition stepPrintBlocks :: "collab \<Rightarrow> step" where
  "stepPrintBlocks e s =
     (if GetBoolArg e s ''-printblockindex'' False \<or> GetBoolArg e s ''-printblocktree'' False
      then leave ReturnFalse (emit (Util PrintBlockTree) s)
      else (case mapArgs s ''-printblock'' of
              None \<Rightarrow> Inr s
            | Some strMatch \<Rightarrow> leave ReturnFalse (emit (Util (PrintBlock strMatch)) s)))"

definition loadErrors :: "DBErrors \<Rightarrow> load_error list" where
  "loadErrors nLoadWalletRet =
     (if nLoadWalletRet \<noteq> DB_LOAD_OK then
        (if nLoadWalletRet = DB_CORRUPT then [WalletCorrupted]
         else if nLoadWalletRet = DB_NONCRITICAL_ERROR then []
         else if nLoadWalletRet = DB_TOO_NEW then [WalletTooNew]
         else if nLoadWalletRet = DB_NEED_REWRITE then [WalletNeedsRewrite]
         else [WalletLoadError])
      else [])"

definition walletUpgrade :: "collab \<Rightarrow> bool \<Rightarrow> node \<Rightarrow> node" where
  "walletUpgrade e fFirstRun s =
     (if GetBoolArg e s ''-upgradewallet'' fFirstRun then
        (let n0 = GetArg e s ''-upgradewallet'' 0;
             s1 = (if n0 = 0 then emit (Wallet SetMinVersionLatest) s else s);
             nMaxVersion = (if n0 = 0 then CLIENT_VERSION e else n0);
             s2 = (if nMaxVersion < wallet_GetVersion e (n0 = 0)
                   then s1\<lparr>strErrors := strErrors s1 @ [CannotDowngradeWallet]\<rparr> else s1)
         in emit (Wallet (SetMaxVersion nMaxVersion)) s2)
      else s)"

definition walletFirstRun :: "collab \<Rightarrow> bool \<Rightarrow> node \<Rightarrow> node" where
  "walletFirstRun e fFirstRun s =
     (if fFirstRun then
        (let s1 = (if GetKeyFromPool e then
                     (let s' = emit (Wallet SetDefaultKey) s
                      in if \<not> SetAddressBookName e
                         then s'\<lparr>strErrors := strErrors s' @ [CannotWriteDefaultAddress]\<rparr>
                         else s')
                   else s)
         in emit (Wallet (SetBestChain (pindexBest s1))) s1)
      else s)"

definition rescanStart :: "collab \<Rightarrow> node \<Rightarrow> blockptr" where
  "rescanStart e s =
     (if GetBoolArg e s ''-rescan'' False then pindexGenesisBlock s
      else (case ReadBestBlock e of
              Some locator \<Rightarrow> GetBlockIndex e locator
            | None \<Rightarrow> pindexGenesisBlock s))"

definition needRescan :: "collab \<Rightarrow> node \<Rightarrow> blockptr \<Rightarrow> bool" where
  "needRescan e s pindexRescan =
     (pindexBest s \<noteq> pindexRescan \<and>
      (case pindexBest s of
         None \<Rightarrow> False
       | Some best \<Rightarrow>
           (case pindexRescan of
              None \<Rightarrow> False
            | Some rescan \<Rightarrow> nHeight e best > nHeight e rescan)))"

definition walletRescan :: "collab \<Rightarrow> node \<Rightarrow> node" where
  "walletRescan e s =
     (let s1 = emit (Wallet RegisterWallet) s;
          pindexRescan = rescanStart e s1
      in if needRescan e s1 pindexRescan then
           (let s2 = emit (Wallet (ScanForWalletTransactions pindexRescan)) s1;
                s3 = emit (Wallet (SetBestChain (pindexBest s2))) s2
            in s3\<lparr>nWalletDBUpdated := (nWalletDBUpdated s3 + 1) mod 2 ^ 32\<rparr>)
         else s1)"

definition stepLoadWallet :: "collab \<Rightarrow> step" where
  "stepLoadWallet e s =
     (if \<not> ENABLE_WALLET e then Inr s
      else if fDisableWallet s then Inr (s\<lparr>pwalletMain := None\<rparr>)
      else
        (let (nLoadWalletRet, fFirstRun) = LoadWallet e;
             s1 = s\<lparr>pwalletMain := Some (strWalletFileName s)\<rparr>;
             s2 = s1\<lparr>strErrors := strErrors s1 @ loadErrors nLoadWalletRet\<rparr>
         in if nLoadWalletRet = DB_NEED_REWRITE
            then leave (InitError (WalletErrors (strErrors s2))) s2
            else Inr (walletRescan e (walletFirstRun e fFirstRun (walletUpgrade e fFirstRun s2)))))"

subsection \<open>AppInit2: services\<close>

definition stepImport :: "collab \<Rightarrow> node \<Rightarrow> node" where
  "stepImport e s =
     (let arguments = (if count_arg (mapArgs s) ''-loadblock''
                       then mapMultiArgs s ''-loadblock'' else []);
          s1 = emit (CreateThread (ThreadImport arguments)) s;
          s2 = emit (Net AddrmanRead) s1
      in emit (Net (SecureMsgStart (fNoSmsg s2) (GetBoolArg e s2 ''-smsgscanchain'' False))) s2)"

definition StartShutdown_call :: "node \<Rightarrow> node" where
  "StartShutdown_call s = s\<lparr>fRequestShutdown := True\<rparr>"

definition ShutdownRequested :: "node \<Rightarrow> bool" where
  "ShutdownRequested s = fRequestShutdown s"

definition stepDiskSpace :: "collab \<Rightarrow> step" where
  "stepDiskSpace e s =
     (if \<not> CheckDiskSpace e then leave ReturnFalse (StartShutdown_call s)
      else if strErrors s \<noteq> [] then leave (InitError (WalletErrors (strErrors s))) s
      else Inr s)"

definition stepMasternode :: "collab \<Rightarrow> step" where
  "stepMasternode e s =
     (let s1 = s\<lparr>fMasterNode := GetBoolArg e s ''-masternode'' False\<rparr>
      in if fMasterNode s1 then
           (let s2 = s1\<lparr>strMasterNodeAddr := GetArgStr s1 ''-masternodeaddr'' []\<rparr>
            in if strMasterNodeAddr s2 \<noteq> []
                  \<and> \<not> IsValid e (CService_plain (strMasterNodeAddr s2))
               then leave (InitError (InvalidMasternodeAddr (strMasterNodeAddr s2))) s2
               else
                 (let s3 = s2\<lparr>strMasterNodePrivKey := GetArgStr s2 ''-masternodeprivkey'' []\<rparr>
                  in if strMasterNodePrivKey s3 \<noteq> [] then
                       (if \<not> darkSendSigner_SetKey e (strMasterNodePrivKey s3)
                        then leave (InitError InvalidMasternodePrivkey) s3
                        else Inr (emit (Darksend (SetMasternodeKey (strMasterNodePrivKey s3))) s3))
                     else leave (InitError MissingMasternodePrivkey) s3))
         else Inr s1)"

text \<open>An \<open>int\<close> result that leaves the 32-bit range wraps around.\<close>

definition int32 :: "int \<Rightarrow> int" where
  "int32 x = (x + 2147483648) mod 4294967296 - 2147483648"

definition stepDarksend :: "collab \<Rightarrow> node \<Rightarrow> node" where
  "stepDarksend e s =
     (let s1 = s\<lparr>fEnableDarksend := GetBoolArg e s ''-enabledarksend'' False,
                 nDarksendRounds := GetArg e s ''-darksendrounds'' 2\<rparr>;
          s2 = (if nDarksendRounds s1 > 16 then s1\<lparr>nDarksendRounds := 16\<rparr> else s1);
          s3 = (if nDarksendRounds s2 < 1 then s2\<lparr>nDarksendRounds := 1\<rparr> else s2);
          s4 = s3\<lparr>nLiquidityProvider := GetArg e s3 ''-liquidityprovider'' 0\<rparr>
      in if nLiquidityProvider s4 \<noteq> 0 then
           (emit (Darksend (SetMinBlockSpacing (int32 (min (nLiquidityProvider s4) 100 * 15)))) s4)
             \<lparr>fEnableDarksend := True, nDarksendRounds := 99999\<rparr>
         else s4)"

definition stepAnonymize :: "collab \<Rightarrow> node \<Rightarrow> node" where
  "stepAnonymize e s =
     (let s1 = s\<lparr>nAnonymizeSwippAmount := GetArg e s ''-anonymizeSwippamount'' 0\<rparr>;
          s2 = (if nAnonymizeSwippAmount s1 > 999999
                then s1\<lparr>nAnonymizeSwippAmount := 999999\<rparr> else s1)
      in if nAnonymizeSwippAmount s2 < 2 then s2\<lparr>nAnonymizeSwippAmount := 2\<rparr> else s2)"

definition stepInstantX :: "collab \<Rightarrow> node \<Rightarrow> node" where
  "stepInstantX e s =
     (let fEnableInstantX = GetBoolArg e s ''-enableinstantx'' True
      in if fEnableInstantX then
           (let s1 = s\<lparr>nInstantXDepth := GetArg e s ''-instantxdepth'' 5\<rparr>;
                s2 = (if nInstantXDepth s1 > 60 then s1\<lparr>nInstantXDepth := 60\<rparr> else s1)
            in if nInstantXDepth s2 < 0 then s2\<lparr>nAnonymizeSwippAmount := 0\<rparr> else s2)
         else s\<lparr>nInstantXDepth := 0\<rparr>)"

definition stepLiteMode :: "collab \<Rightarrow> step" where
  "stepLiteMode e s =
     (let s1 = s\<lparr>fLiteMode := GetBoolArg e s ''-litemode'' False\<rparr>
      in if fMasterNode s1 \<and> fLiteMode s1 then leave (InitError MasternodeInLitemode) s1
         else Inr s1)"

definition stepDarksendPool :: "collab \<Rightarrow> node \<Rightarrow> node" where
  "stepDarksendPool e s =
     emit (CreateThread ThreadCheckDarkSendPool)
       (emit (Darksend InitCollateralAddress) (emit (Darksend PushDenominations) s))"

text \<open>
  The loop walks from \<open>pindexBest\<close> back along the chain and rebuilds the index of each
  block; the one event stands for that walk, and nothing is rebuilt when \<open>pindexBest\<close>
  is null.
\<close>

definition stepReindexAddr :: "collab \<Rightarrow> node \<Rightarrow> node" where
  "stepReindexAddr e s =
     (if GetBoolArg e s ''-reindexaddr'' False \<and> pindexBest s \<noteq> None
      then emit (Util RebuildAddressIndex) s else s)"

definition stepStartNode :: "collab \<Rightarrow> node \<Rightarrow> node" where
  "stepStartNode e s =
     (let s1 = emit (Net StartNode) s;
          s2 = (if ENABLE_WALLET e then emit (Rpc InitRPCMining) s1 else s1);
          s3 = emit (Rpc StartRPCThreads) s2;
          s4 = (if ENABLE_WALLET e \<and> GetBoolArg e s3 ''-staking'' True \<and> pwalletMain s3 \<noteq> None
                then emit (CreateThread ThreadStakeMiner) s3 else s3)
      in if ENABLE_WALLET e \<and> pwalletMain s4 \<noteq> None
         then emit (CreateThread ThreadFlushWalletDB)
                (emit (Wallet ReacceptWalletTransactions) s4)
         else s4)"

subsection \<open>AppInit2\<close>

definition pure :: "(node \<Rightarrow> node) \<Rightarrow> step" where
  "pure f s = Inr (f s)"

text \<open>The statements of \<open>AppInit2\<close> up to and including the network set-up.\<close>

definition stepsConfig :: "collab \<Rightarrow> step list" where
  "stepsConfig e =
     [pure (InitializeCollections e), pure (stepEarlyArgs e), stepSelectParams e,
      pure (parameterInteraction e), pure (stepDebug e), stepSocks e, pure (stepLogFlags e),
      pure (stepTimeout e), stepPaytxfee e, pure (stepCoinFlags e), stepMininput e,
      stepSanity e, stepWalletName e, stepLock e, pure (stepShrink e), stepControlKeys e,
      stepWalletDb e]"

definition stepsNetwork :: "collab \<Rightarrow> step list" where
  "stepsNetwork e =
     [pure (emit (Net RegisterNodeSignals)), stepOnlynet e, stepProxy e, stepListen e]"

text \<open>From there to the masternode and mixing settings, before the lite-mode check.\<close>

definition stepsLoad :: "collab \<Rightarrow> step list" where
  "stepsLoad e =
     [stepExternalip e, stepReserveBalance e, pure (stepSeednodes e),
      stepLoadBlockIndexTest e, stepLoadBlockIndex e, stepPrintBlocks e, stepLoadWallet e,
      pure (stepImport e), stepDiskSpace e]"

definition stepsModes :: "collab \<Rightarrow> step list" where
  "stepsModes e =
     [stepMasternode e, pure (stepDarksend e), pure (stepAnonymize e), pure (stepInstantX e)]"

text \<open>After the lite-mode check: the services are started.\<close>

definition stepsStart :: "collab \<Rightarrow> step list" where
  "stepsStart e = [pure (stepDarksendPool e), pure (stepReindexAddr e), pure (stepStartNode e)]"

definition AppInit2_steps :: "collab \<Rightarrow> step list" where
  "AppInit2_steps e =
     stepsConfig e @ stepsNetwork e @ stepsLoad e @ stepsModes e @ [stepLiteMode e] @ stepsStart e"

definition AppInit2 :: "collab \<Rightarrow> node \<Rightarrow> ret \<times> node" where
  "AppInit2 e s =
     (case runSteps (AppInit2_steps e) s of
        Inl x \<Rightarrow> x
      | Inr s' \<Rightarrow>
          (let s'' = s'\<lparr>fRequestShutdown := (fRequestShutdown s' \<or> signalBeforeReturn e)\<rparr>
           in (ReturnValue (\<not> fRequestShutdown s''), s'')))"

subsection \<open>Shutdown\<close>

text \<open>
  The body of \<open>Shutdown\<close> after the lock has been taken. The wallet calls are compiled
  in only with \<open>ENABLE_WALLET\<close> and are made only when \<open>pwalletMain\<close> is not null;
  \<open>delete\<close> of a null pointer does nothing.
\<close>

definition teardown :: "collab \<Rightarrow> node \<Rightarrow> node" where
  "teardown e s =
     (let s1 = emit (Util RenameThread) s;
          s2 = emit (Net AddTransactionsUpdated) s1;
          s3 = emit (Rpc StopRPCThreads) s2;
          s4 = emit (Net SecureMsgShutdown) s3;
          s5 = (if ENABLE_WALLET e then emit (Rpc ShutdownRPCMining) s4 else s4);
          s6 = (if ENABLE_WALLET e \<and> pwalletMain s5 \<noteq> None
                then emit (Wallet (BitdbFlush False)) s5 else s5);
          s7 = emit (Net StopNode) s6;
          s8 = (if ENABLE_WALLET e \<and> pwalletMain s7 \<noteq> None
                then emit (Wallet (SetBestChain (pindexBest s7))) s7 else s7);
          s9 = (if ENABLE_WALLET e \<and> pwalletMain s8 \<noteq> None
                then emit (Wallet (BitdbFlush True)) s8 else s8);
          s10 = emit (Util RemovePidFile) s9;
          s11 = emit (Wallet UnregisterAllWallets) s10
      in if ENABLE_WALLET e
         then (if pwalletMain s11 \<noteq> None then emit (Wallet DeleteWallet) s11 else s11)
                \<lparr>pwalletMain := None\<rparr>
         else s11)"

text \<open>
  Modelled from the spec: \<open>TRY_LOCK\<close> and \<open>CCriticalSection\<close> are declared in sync.h,
  which is not among the sources. A caller that finds a shutdown already in progress
  returns without running the teardown: \<open>cs_Shutdown\<close> is true while another caller
  holds the lock. \<open>lockShutdown\<close> is a local of \<open>Shutdown\<close>, so the lock it took is
  given back when \<open>Shutdown\<close> returns.
\<close>

definition Shutdown :: "collab \<Rightarrow> node \<Rightarrow> node" where
  "Shutdown e s =
     (if cs_Shutdown s then s
      else (teardown e (s\<lparr>cs_Shutdown := True\<rparr>))\<lparr>cs_Shutdown := False\<rparr>)"

subsection \<open>The state a step ends in\<close>

definition outState :: "(ret \<times> node) + node \<Rightarrow> node" where
  "outState x = (case x of Inl p \<Rightarrow> snd p | Inr s \<Rightarrow> s)"

subsection \<open>A concrete run\<close>

text \<open>
  An initial state of the globals and one choice of results for the outside calls, in
  which every call succeeds. Numbers are read as \<open>strtoll\<close> reads a decimal (leading
  white space, an optional sign, digits, the result kept inside 64 bits) and then
  narrowed to 32 bits; every stake key hashes to slot 0. They serve as inputs for the
  examples below.
\<close>

fun readDigits :: "string \<Rightarrow> int \<Rightarrow> int" where
  "readDigits [] acc = acc"
| "readDigits (c # cs) acc =
     (let d = (of_char c :: int)
      in if 48 \<le> d \<and> d \<le> 57 then readDigits cs (10 * acc + (d - 48)) else acc)"

definition isspace :: "char \<Rightarrow> bool" where
  "isspace c = (c = CHR '' '' \<or> (9 \<le> (of_char c :: int) \<and> (of_char c :: int) \<le> 13))"

definition readInt :: "string \<Rightarrow> int" where
  "readInt str =
     int32
       (max (- 9223372036854775808)
          (min 9223372036854775807
             (case dropWhile isspace str of
                [] \<Rightarrow> 0
              | c # cs \<Rightarrow>
                  if c = CHR ''-'' then - readDigits cs 0
                  else if c = CHR ''+'' then readDigits cs 0
                  else readDigits (c # cs) 0)))"

definition readBool :: "string \<Rightarrow> bool" where
  "readBool str = (str = [] \<or> readInt str \<noteq> 0)"

definition node0 :: node where
  "node0 =
     \<lparr>mapArgs = Map.empty, mapMultiArgs = (\<lambda>_. []),
      setStakeSeen = \<lparr>empty_key = None, deleted_key = None, slots = []\<rparr>,
      setStakeSeenOrphan = \<lparr>empty_key = None, deleted_key = None, slots = []\<rparr>,
      nNodeLifespan = 0, fUseFastIndex = False, nMinerSleep = 0, nDerivationMethodIndex = 0,
      fDebug = False, fDebugSmsg = False, fDebugBacktrace = False, fNoSmsg = False,
      fPrintToConsole = False, fLogTimestamps = False, fDisableWallet = False,
      nConnectTimeout = 5000, nTransactionFee = 0, fConfChange = False,
      fMinimizeCoinAge = False, nMinimumInputValue = 0, strWalletFileName = [],
      fOnlyTor = False, vfLimited = (\<lambda>_. False), proxyInfo = Map.empty, nameProxy = None,
      fNoListen = False, fDiscover = True, fNameLookup = False, nReserveBalance = 0,
      pindexBest = None, pindexGenesisBlock = None, pwalletMain = None, strErrors = [],
      nWalletDBUpdated = 0, fRequestShutdown = False, fMasterNode = False,
      strMasterNodeAddr = [], strMasterNodePrivKey = [], fEnableDarksend = False,
      nDarksendRounds = 2, nLiquidityProvider = 0, nAnonymizeSwippAmount = 0,
      nInstantXDepth = 0, fLiteMode = False, cs_Shutdown = False, trace = []\<rparr>"

definition collab0 :: collab where
  "collab0 =
     \<lparr>ENABLE_WALLET = True, interpretBool = readBool, atoi = readInt,
      ParseMoney = (\<lambda>v. if v = [] then None else Some (readInt v)),
      COutPoint0 = \<lparr>op_hash = 0, op_n = - 1\<rparr>,
      num_buckets = 4, hash_range = (\<lambda>_. 0), hash_combine = (\<lambda>seed _. seed),
      SelectParamsFromCommandLine = True, TestNet = False, ECC_InitSanityCheck = True,
      plainFilename = (\<lambda>name. CHR ''/'' \<notin> set name), lock_try_lock = True,
      masternodePayments_SetPrivKey = (\<lambda>_. True), sporkManager_SetPrivKey = (\<lambda>_. True),
      bitdb_Open_first = True, bitdb_Open_retry = True, CWalletDB_Recover = True,
      walletFileExists = True, bitdb_Verify = VERIFY_OK,
      ParseNetwork = (\<lambda>snet. if snet = ''ipv4'' then NET_IPV4 else if snet = ''ipv6'' then NET_IPV6
                         else if snet = ''tor'' then NET_TOR else NET_UNROUTABLE),
      IsValid = (\<lambda>_. True),
      GetNetwork = (\<lambda>a. case a of CService_in6addr_any \<Rightarrow> NET_IPV6 | _ \<Rightarrow> NET_IPV4),
      Lookup = (\<lambda>str. Some (CService_listen str)), BindListenPort_result = (\<lambda>_. True),
      LoadBlockIndex = Some (Some 7, Some 0), signalDuringLoad = False,
      LoadWallet = (DB_LOAD_OK, False), CLIENT_VERSION = 1, wallet_GetVersion = (\<lambda>_. 1),
      GetKeyFromPool = True, SetAddressBookName = True, ReadBestBlock = Some [5],
      GetBlockIndex = (\<lambda>locator. case locator of [] \<Rightarrow> Some 0 | h # _ \<Rightarrow> Some h),
      nHeight = (\<lambda>a. int a), CheckDiskSpace = True, darkSendSigner_SetKey = (\<lambda>_. True),
      signalBeforeReturn = False\<rparr>"

definition proxyListenArgs :: node where
  "proxyListenArgs =
     node0\<lparr>mapArgs := [''-proxy'' \<mapsto> ''127.0.0.1:9050'', ''-listen'' \<mapsto> ''1'']\<rparr>"

subsection \<open>Auxiliary notions for the properties\<close>

text \<open>The options that some interaction rule may soft-set.\<close>

definition softKeys :: "string list" where
  "softKeys = [''-irc'', ''-listen'', ''-dnsseed'', ''-discover'', ''-upnp'', ''-rescan'']"

text \<open>The steps before the masternode block.\<close>

definition stepsBeforeModes :: "collab \<Rightarrow> step list" where
  "stepsBeforeModes e = stepsConfig e @ stepsNetwork e @ stepsLoad e"

text \<open>Inputs used as examples.\<close>

definition liquidityArgs :: node where
  "liquidityArgs =
     node0\<lparr>mapArgs := [''-enabledarksend'' \<mapsto> ''0'', ''-darksendrounds'' \<mapsto> ''4'',
                          ''-liquidityprovider'' \<mapsto> ''5'']\<rparr>"

definition negativeDepthArgs :: node where
  "negativeDepthArgs =
     node0\<lparr>mapArgs := [''-instantxdepth'' \<mapsto> ''-3'', ''-anonymizeSwippamount'' \<mapsto> ''500'']\<rparr>"

definition realKey :: stake_key where
  "realKey = (\<lparr>op_hash = 1, op_n = 0\<rparr>, 1500000000)"

definition seenTable :: "stake_key list" where
  "seenTable =
     [realKey, (\<lparr>op_hash = 0, op_n = - 1\<rparr>, - 1), (\<lparr>op_hash = 0, op_n = - 1\<rparr>, - 1),
      (\<lparr>op_hash = 0, op_n = - 1\<rparr>, - 1)]"

definition loadedNode :: node where
  "loadedNode = node0\<lparr>pindexBest := Some 7, pindexGenesisBlock := Some 0\<rparr>"

definition rescanArgs :: node where
  "rescanArgs = loadedNode\<lparr>mapArgs := [''-rescan'' \<mapsto> ''1'']\<rparr>"

definition collabAhead :: collab where
  "collabAhead = collab0\<lparr>ReadBestBlock := Some [9]\<rparr>"

definition walletNode :: node where
  "walletNode = loadedNode\<lparr>pwalletMain := Some ''wallet.dat''\<rparr>"

definition lockedNode :: node where
  "lockedNode = walletNode\<lparr>cs_Shutdown := True\<rparr>"

definition outOfRangeArgs :: node where
  "outOfRangeArgs =
     node0\<lparr>mapArgs := [''-timeout'' \<mapsto> ''700000'', ''-darksendrounds'' \<mapsto> ''999'',
                          ''-anonymizeSwippamount'' \<mapsto> ''5000000'']\<rparr>"

definition badFeeArgs :: node where
  "badFeeArgs = node0\<lparr>mapArgs := [''-paytxfee'' \<mapsto> [], ''-mininput'' \<mapsto> []]\<rparr>"

text \<open>\<open>precedes x y xs\<close>: \<open>y\<close> occurs in \<open>xs\<close> after the first occurrence of \<open>x\<close>.\<close>

definition precedes :: "'a \<Rightarrow> 'a \<Rightarrow> 'a list \<Rightarrow> bool" where
  "precedes x y xs = (y \<in> set (drop 1 (dropWhile (\<lambda>z. z \<noteq> x) xs)))"

text \<open>
  The state of the options after the interaction rules when only a proxy was supplied,
  with no network class limited.
\<close>

definition proxyResolved :: "string \<Rightarrow> node \<Rightarrow> bool" where
  "proxyResolved p s =
     (mapArgs s ''-proxy'' = Some p \<and> mapArgs s ''-listen'' = Some ''0''
      \<and> mapArgs s ''-discover'' = Some ''0''
      \<and> (\<forall>k. k \<notin> set [''-proxy'', ''-irc'', ''-listen'', ''-discover'', ''-upnp'']
             \<longrightarrow> mapArgs s k = None)
      \<and> (\<forall>net. \<not> vfLimited s net))"

text \<open>The steps between the parameter interaction and the proxy block.\<close>

definition stepsMiddle :: "collab \<Rightarrow> step list" where
  "stepsMiddle e =
     [pure (stepDebug e), stepSocks e, pure (stepLogFlags e), pure (stepTimeout e),
      stepPaytxfee e, pure (stepCoinFlags e), stepMininput e, stepSanity e, stepWalletName e,
      stepLock e, pure (stepShrink e), stepControlKeys e, stepWalletDb e,
      pure (emit (Net RegisterNodeSignals)), stepOnlynet e]"

text \<open>
  The calls that start peer networking, the RPC service and the mixing, staking and
  wallet-flush threads; \<open>started\<close> is what a trace holds of them.
\<close>

definition serviceEvents :: "event list" where
  "serviceEvents =
     [Net StartNode, Rpc InitRPCMining, Rpc StartRPCThreads,
      CreateThread ThreadCheckDarkSendPool, CreateThread ThreadStakeMiner,
      CreateThread ThreadFlushWalletDB]"

definition started :: "node \<Rightarrow> event list" where
  "started s = filter (\<lambda>ev. ev \<in> set serviceEvents) (trace s)"

text \<open>Further inputs used as examples.\<close>

definition proxyOnlyArgs :: node where
  "proxyOnlyArgs = node0\<lparr>mapArgs := [''-proxy'' \<mapsto> ''127.0.0.1:9050'']\<rparr>"

definition masternodeLiteArgs :: node where
  "masternodeLiteArgs =
     node0\<lparr>mapArgs := [''-masternode'' \<mapsto> ''1'', ''-litemode'' \<mapsto> ''1'',
                          ''-masternodeprivkey'' \<mapsto> ''k'']\<rparr>"

section \<open>Properties\<close>

subsection \<open>Explicit options survive the start-up\<close>

lemma outState_simps [simp]: "outState (Inl p) = snd p" "outState (Inr s) = s"
  by (simp_all add: outState_def)

lemma runSteps_invariant:
  assumes "\<And>f s. f \<in> set fs \<Longrightarrow> P s \<Longrightarrow> P (outState (f s))"
  shows "P s \<Longrightarrow> P (outState (runSteps fs s))"
  using assms
proof (induction fs arbitrary: s)
  case Nil
  then show ?case by simp
next
  case (Cons f fs)
  have step: "P (outState (f s))" using Cons.prems by simp
  show ?case
  proof (cases "f s")
    case (Inl x)
    then show ?thesis using step by simp
  next
    case (Inr s')
    then have "P s'" using step by simp
    then have "P (outState (runSteps fs s'))" using Cons.IH Cons.prems(2) by simp
    then show ?thesis using Inr by simp
  qed
qed

lemma SoftSetArg_keeps:
  "mapArgs s k = Some v \<Longrightarrow> mapArgs (snd (SoftSetArg a x s)) k = Some v"
  by (auto simp: SoftSetArg_def count_arg_def)

lemma SoftSetBoolArg_keeps:
  "mapArgs s k = Some v \<Longrightarrow> mapArgs (snd (SoftSetBoolArg a b s)) k = Some v"
  by (simp add: SoftSetBoolArg_def SoftSetArg_keeps)

lemma rules_keep:
  assumes "mapArgs s k = Some v"
  shows "mapArgs (ruleTestNet e s) k = Some v"
    and "mapArgs (ruleBind e s) k = Some v"
    and "mapArgs (ruleConnect e s) k = Some v"
    and "mapArgs (ruleProxy e s) k = Some v"
    and "mapArgs (ruleNoListen e s) k = Some v"
    and "mapArgs (ruleExternalip e s) k = Some v"
    and "mapArgs (ruleSalvagewallet e s) k = Some v"
  using assms
  by (simp_all add: ruleTestNet_def ruleBind_def ruleConnect_def ruleProxy_def ruleNoListen_def
      ruleExternalip_def ruleSalvagewallet_def SoftSetBoolArg_keeps)

lemma interactionRules_keep:
  "rule \<in> set (interactionRules e) \<Longrightarrow> mapArgs s k = Some v \<Longrightarrow> mapArgs (rule s) k = Some v"
  by (auto simp: interactionRules_def rules_keep)

lemma foldl_rules_keep:
  "(\<And>rule s. rule \<in> set rs \<Longrightarrow> mapArgs s k = Some v \<Longrightarrow> mapArgs (rule s) k = Some v)
   \<Longrightarrow> mapArgs s k = Some v \<Longrightarrow> mapArgs (foldl (\<lambda>s' rule. rule s') s rs) k = Some v"
  by (induction rs arbitrary: s) simp_all

lemma parameterInteraction_keeps:
  "mapArgs s k = Some v \<Longrightarrow> mapArgs (parameterInteraction e s) k = Some v"
  unfolding parameterInteraction_def
  by (rule foldl_rules_keep) (simp_all add: interactionRules_keep rules_keep)

lemma mapArgs_emit [simp]: "mapArgs (emit ev s) = mapArgs s"
  by (simp add: emit_def)

lemma mapArgs_net [simp]:
  "mapArgs (SetLimited net s) = mapArgs s"
  "mapArgs (SetProxy net a s) = mapArgs s"
  "mapArgs (SetNameProxy a s) = mapArgs s"
  by (simp_all add: SetLimited_def SetProxy_def SetNameProxy_def)

lemma mapArgs_onlynetLoop:
  "mapArgs (outState (case onlynetLoop e xs nets s of Inl x \<Rightarrow> Inl x
                        | Inr (n, s1) \<Rightarrow> Inr (limitOthers n s1))) = mapArgs s"
proof (induction xs arbitrary: nets s)
  case Nil
  show ?case by (simp add: limitOthers_def)
next
  case (Cons x xs)
  show ?case using Cons.IH by (simp add: Let_def)
qed

lemma mapArgs_Bind [simp]: "mapArgs (snd (Bind e a f s)) = mapArgs s"
  by (simp add: Bind_def)

lemma mapArgs_bindLoop:
  "mapArgs (outState (case bindLoop e xs b s of Inl x \<Rightarrow> Inl x
                        | Inr (fb, s2) \<Rightarrow> if \<not> fb then leave r s2 else Inr s2)) = mapArgs s"
proof (induction xs arbitrary: b s)
  case Nil
  show ?case by (simp add: leave_def)
next
  case (Cons x xs)
  show ?case
  proof (cases "Lookup e x")
    case None
    then show ?thesis by simp
  next
    case (Some a)
    obtain b1 s1 where B: "Bind e a True s = (b1, s1)" by (cases "Bind e a True s")
    have "mapArgs s1 = mapArgs s" using mapArgs_Bind [of e a True s] B by simp
    then show ?thesis using Some B Cons.IH [of "b \<or> b1" s1] by simp
  qed
qed

lemma mapArgs_bindAny [simp]: "mapArgs (snd (bindAny e s)) = mapArgs s"
  by (simp add: bindAny_def Bind_def split: prod.splits if_splits)

lemma mapArgs_externalipLoop: "mapArgs (outState (externalipLoop e xs s)) = mapArgs s"
  by (induction xs arbitrary: s) simp_all

lemma mapArgs_seednodes: "mapArgs (foldl (\<lambda>s' d. emit (Net (AddOneShot d)) s') s xs) = mapArgs s"
  by (induction xs arbitrary: s) simp_all

lemma mapArgs_pure_steps [simp]:
  "mapArgs (InitializeCollections e s) = mapArgs s"
  "mapArgs (stepEarlyArgs e s) = mapArgs s"
  "mapArgs (stepDebug e s) = mapArgs s"
  "mapArgs (stepLogFlags e s) = mapArgs s"
  "mapArgs (stepTimeout e s) = mapArgs s"
  "mapArgs (stepCoinFlags e s) = mapArgs s"
  "mapArgs (stepShrink e s) = mapArgs s"
  "mapArgs (stepSeednodes e s) = mapArgs s"
  "mapArgs (stepImport e s) = mapArgs s"
  "mapArgs (stepDarksend e s) = mapArgs s"
  "mapArgs (stepAnonymize e s) = mapArgs s"
  "mapArgs (stepInstantX e s) = mapArgs s"
  "mapArgs (stepDarksendPool e s) = mapArgs s"
  "mapArgs (stepReindexAddr e s) = mapArgs s"
  "mapArgs (stepStartNode e s) = mapArgs s"
  by (simp_all add: InitializeCollections_def set_empty_key_def set_deleted_key_def stepEarlyArgs_def stepDebug_def stepLogFlags_def
      stepTimeout_def stepCoinFlags_def stepShrink_def stepSeednodes_def mapArgs_seednodes
      stepImport_def stepDarksend_def stepAnonymize_def stepInstantX_def stepDarksendPool_def
      stepReindexAddr_def stepStartNode_def Let_def)

lemma mapArgs_wallet [simp]:
  "mapArgs (walletUpgrade e f s) = mapArgs s"
  "mapArgs (walletFirstRun e f s) = mapArgs s"
  "mapArgs (walletRescan e s) = mapArgs s"
  by (simp_all add: walletUpgrade_def walletFirstRun_def walletRescan_def Let_def)

lemma mapArgs_steps_a [simp]:
  "mapArgs (outState (stepSelectParams e s)) = mapArgs s"
  "mapArgs (outState (stepSocks e s)) = mapArgs s"
  "mapArgs (outState (stepSanity e s)) = mapArgs s"
  "mapArgs (outState (stepWalletName e s)) = mapArgs s"
  "mapArgs (outState (stepLock e s)) = mapArgs s"
  "mapArgs (outState (stepControlKeys e s)) = mapArgs s"
  "mapArgs (outState (walletVerify e s)) = mapArgs s"
  "mapArgs (outState (stepLoadBlockIndexTest e s)) = mapArgs s"
  "mapArgs (outState (stepDiskSpace e s)) = mapArgs s"
  "mapArgs (outState (stepLiteMode e s)) = mapArgs s"
  by (simp_all add: stepSelectParams_def stepSocks_def
      stepSanity_def stepWalletName_def stepLock_def stepControlKeys_def walletVerify_def
      stepLoadBlockIndexTest_def stepDiskSpace_def StartShutdown_call_def
      stepLiteMode_def leave_def Let_def)

lemma mapArgs_steps_b [simp]:
  "mapArgs (outState (stepPaytxfee e s)) = mapArgs s"
  "mapArgs (outState (stepMininput e s)) = mapArgs s"
  "mapArgs (outState (stepReserveBalance e s)) = mapArgs s"
  "mapArgs (outState (stepPrintBlocks e s)) = mapArgs s"
  by (simp_all add: stepPaytxfee_def stepMininput_def stepReserveBalance_def stepPrintBlocks_def
      leave_def split: option.splits)

lemma mapArgs_steps_c [simp]:
  "mapArgs (outState (stepLoadBlockIndex e s)) = mapArgs s"
  by (simp add: stepLoadBlockIndex_def leave_def Let_def split: option.splits prod.splits)

lemma mapArgs_steps_d [simp]:
  "mapArgs (outState (stepLoadWallet e s)) = mapArgs s"
  by (cases "LoadWallet e") (simp add: stepLoadWallet_def leave_def Let_def)

lemma mapArgs_steps_e [simp]:
  "mapArgs (outState (stepMasternode e s)) = mapArgs s"
  by (simp add: stepMasternode_def leave_def Let_def)

lemma mapArgs_stepWalletDb [simp]: "mapArgs (outState (stepWalletDb e s)) = mapArgs s"
  by (simp add: stepWalletDb_def leave_def Let_def)

lemma mapArgs_stepOnlynet [simp]: "mapArgs (outState (stepOnlynet e s)) = mapArgs s"
  by (simp add: stepOnlynet_def mapArgs_onlynetLoop)

lemma mapArgs_proxyBlock:
  "proxyBlock e s = Inl (r, s') \<Longrightarrow> mapArgs s' = mapArgs s"
  "proxyBlock e s = Inr (a, s') \<Longrightarrow> mapArgs s' = mapArgs s"
  by (auto simp: proxyBlock_def Let_def split: option.splits if_splits)

lemma mapArgs_torBlock [simp]: "mapArgs (outState (torBlock e a s)) = mapArgs s"
  by (simp add: torBlock_def leave_def Let_def split: option.splits)

lemma mapArgs_stepProxy [simp]: "mapArgs (outState (stepProxy e s)) = mapArgs s"
proof (cases "proxyBlock e s")
  case (Inl x)
  then show ?thesis using mapArgs_proxyBlock(1) [of e s "fst x" "snd x"]
    by (simp add: stepProxy_def)
next
  case (Inr y)
  then show ?thesis using mapArgs_proxyBlock(2) [of e s "fst y" "snd y"]
    by (cases y) (simp add: stepProxy_def)
qed

lemma mapArgs_listen_bind:
  "mapArgs (outState (case (if c then bindLoop e xs False s1 else Inr (bindAny e s1)) of
                        Inl x \<Rightarrow> Inl x
                      | Inr (fBound, s2) \<Rightarrow> if \<not> fBound then leave r s2 else Inr s2))
   = mapArgs s1"
proof (cases c)
  case True
  then show ?thesis
    using mapArgs_bindLoop [where e = e and xs = xs and b = False and s = s1 and r = r] by simp
next
  case False
  obtain b s2 where B: "bindAny e s1 = (b, s2)" by (cases "bindAny e s1")
  have "mapArgs s2 = mapArgs s1" using mapArgs_bindAny [of e s1] B by simp
  then show ?thesis using False B by (simp add: leave_def)
qed

lemma mapArgs_stepListen [simp]: "mapArgs (outState (stepListen e s)) = mapArgs s"
  by (simp add: stepListen_def Let_def mapArgs_listen_bind)

lemma mapArgs_stepExternalip [simp]: "mapArgs (outState (stepExternalip e s)) = mapArgs s"
  by (simp add: stepExternalip_def mapArgs_externalipLoop)

lemma AppInit2_steps_keep:
  assumes "f \<in> set (AppInit2_steps e)" and "mapArgs s k = Some v"
  shows "mapArgs (outState (f s)) k = Some v"
proof -
  have "f = pure (parameterInteraction e) \<or> mapArgs (outState (f s)) = mapArgs s"
    using assms(1)
    by (auto simp: AppInit2_steps_def stepsConfig_def stepsNetwork_def stepsLoad_def
        stepsModes_def stepsStart_def pure_def)
  then show ?thesis
    using assms(2) parameterInteraction_keeps [of s k v e] by (auto simp: pure_def)
qed

text \<open>
  C1. Whatever the option set, an option the operator supplied keeps its value: no
  interaction rule (bind, connect, proxy, listen off, externalip, salvagewallet) changes
  it, so a rule can only fill in options that were not supplied; the same holds after
  all the rules together and in the state in which \<open>AppInit2\<close> returns.
\<close>

theorem explicit_option_never_overwritten:
  assumes "mapArgs s k = Some v"
  shows "(\<forall>rule \<in> set (interactionRules e). mapArgs (rule s) k = Some v)
         \<and> mapArgs (parameterInteraction e s) k = Some v
         \<and> mapArgs (snd (AppInit2 e s)) k = Some v"
proof -
  have run: "mapArgs (outState (runSteps (AppInit2_steps e) s)) k = Some v"
    using assms
    by (rule runSteps_invariant [where P = "\<lambda>s. mapArgs s k = Some v", rotated])
       (rule AppInit2_steps_keep)
  have "mapArgs (snd (AppInit2 e s)) k = Some v"
    using run by (cases "runSteps (AppInit2_steps e) s") (simp_all add: AppInit2_def Let_def)
  then show ?thesis
    using assms by (simp add: interactionRules_keep parameterInteraction_keeps)
qed

theorem explicit_option_never_overwritten_witness:
  "mapArgs proxyListenArgs ''-listen'' = Some ''1''
   \<and> ruleProxy collab0 \<in> set (interactionRules collab0)
   \<and> mapArgs (ruleProxy collab0 proxyListenArgs) ''-listen'' = Some ''1''
   \<and> mapArgs (parameterInteraction collab0 proxyListenArgs) ''-listen'' = Some ''1''
   \<and> mapArgs (snd (AppInit2 collab0 proxyListenArgs)) ''-listen'' = Some ''1''"
proof -
  have h: "mapArgs proxyListenArgs ''-listen'' = Some ''1''"
    by (simp add: proxyListenArgs_def)
  have m: "ruleProxy collab0 \<in> set (interactionRules collab0)"
    by (simp add: interactionRules_def)
  show ?thesis
    using explicit_option_never_overwritten [OF h, of collab0] h m by blast
qed

subsection \<open>Runs of AppInit2 taken apart\<close>

lemma runSteps_append:
  "runSteps (fs @ gs) s = (case runSteps fs s of Inl x \<Rightarrow> Inl x | Inr s' \<Rightarrow> runSteps gs s')"
  by (induction fs arbitrary: s) (simp_all split: sum.splits)

lemma runSteps_Inr_invariant:
  assumes "\<And>f s. f \<in> set fs \<Longrightarrow> P s \<Longrightarrow> P (outState (f s))"
    and "P s" and "runSteps fs s = Inr s'"
  shows "P s'"
proof -
  have "P (outState (runSteps fs s))"
    using assms(2) by (rule runSteps_invariant [where P = P, rotated]) (rule assms(1))
  then show ?thesis using assms(3) by simp
qed

lemma GetArg_cong:
  "mapArgs s' k = mapArgs s k \<Longrightarrow> GetBoolArg e s' k d = GetBoolArg e s k d"
  "mapArgs s' k = mapArgs s k \<Longrightarrow> GetArg e s' k n = GetArg e s k n"
  "mapArgs s' k = mapArgs s k \<Longrightarrow> GetArgStr s' k x = GetArgStr s k x"
  by (simp_all add: GetBoolArg_def GetArg_def GetArgStr_def)

lemma SoftSetBoolArg_other:
  "k \<noteq> a \<Longrightarrow> mapArgs (snd (SoftSetBoolArg a b s)) k = mapArgs s k"
  by (simp add: SoftSetBoolArg_def SoftSetArg_def)

lemma parameterInteraction_other:
  assumes "k \<notin> set softKeys"
  shows "mapArgs (parameterInteraction e s) k = mapArgs s k"
proof -
  have ne: "k \<noteq> ''-irc''" "k \<noteq> ''-listen''" "k \<noteq> ''-dnsseed''" "k \<noteq> ''-discover''"
    "k \<noteq> ''-upnp''" "k \<noteq> ''-rescan''"
    using assms by (auto simp: softKeys_def)
  have r: "mapArgs (ruleTestNet e t) k = mapArgs t k" "mapArgs (ruleBind e t) k = mapArgs t k"
    "mapArgs (ruleConnect e t) k = mapArgs t k" "mapArgs (ruleProxy e t) k = mapArgs t k"
    "mapArgs (ruleNoListen e t) k = mapArgs t k" "mapArgs (ruleExternalip e t) k = mapArgs t k"
    "mapArgs (ruleSalvagewallet e t) k = mapArgs t k" for t
    using ne
    by (simp_all add: ruleTestNet_def ruleBind_def ruleConnect_def ruleProxy_def
        ruleNoListen_def ruleExternalip_def ruleSalvagewallet_def SoftSetBoolArg_other)
  show ?thesis
    by (simp add: parameterInteraction_def interactionRules_def r)
qed

lemma AppInit2_steps_other:
  assumes "f \<in> set (AppInit2_steps e)" and "k \<notin> set softKeys"
  shows "mapArgs (outState (f s)) k = mapArgs s k"
proof -
  have "f = pure (parameterInteraction e) \<or> mapArgs (outState (f s)) = mapArgs s"
    using assms(1)
    by (auto simp: AppInit2_steps_def stepsConfig_def stepsNetwork_def stepsLoad_def
        stepsModes_def stepsStart_def pure_def)
  then show ?thesis
    using parameterInteraction_other [OF assms(2), of e s] by (auto simp: pure_def)
qed

lemma AppInit2_steps_split:
  "AppInit2_steps e =
     stepsBeforeModes e @ [stepMasternode e, pure (stepDarksend e), pure (stepAnonymize e),
       pure (stepInstantX e), stepLiteMode e, pure (stepDarksendPool e),
       pure (stepReindexAddr e), pure (stepStartNode e)]"
  by (simp add: AppInit2_steps_def stepsBeforeModes_def stepsModes_def stepsStart_def)

lemma stepsBeforeModes_other:
  assumes "runSteps (stepsBeforeModes e) s = Inr s1" and "k \<notin> set softKeys"
  shows "mapArgs s1 k = mapArgs s k"
proof (rule runSteps_Inr_invariant [where P = "\<lambda>t::node. mapArgs t k = mapArgs s k", OF _ _ assms(1)])
  fix f and t :: node
  assume "f \<in> set (stepsBeforeModes e)" and t: "mapArgs t k = mapArgs s k"
  then have "f \<in> set (AppInit2_steps e)"
    by (auto simp: AppInit2_steps_def stepsBeforeModes_def)
  then show "mapArgs (outState (f t)) k = mapArgs s k"
    using AppInit2_steps_other [of f e k t] assms(2) t by simp
qed simp

text \<open>What a run that reaches the last line of \<open>AppInit2\<close> went through.\<close>

lemma AppInit2_reaches_end:
  assumes "runSteps (AppInit2_steps e) s = Inr s'"
  obtains s1 sm sl where
    "runSteps (stepsBeforeModes e) s = Inr s1"
    "stepMasternode e s1 = Inr sm"
    "stepLiteMode e (stepInstantX e (stepAnonymize e (stepDarksend e sm))) = Inr sl"
    "s' = stepStartNode e (stepReindexAddr e (stepDarksendPool e sl))"
proof -
  from assms obtain s1 where a: "runSteps (stepsBeforeModes e) s = Inr s1"
    by (cases "runSteps (stepsBeforeModes e) s")
       (simp_all add: AppInit2_steps_split runSteps_append)
  from assms a obtain sm where b: "stepMasternode e s1 = Inr sm"
    by (cases "stepMasternode e s1") (simp_all add: AppInit2_steps_split runSteps_append)
  from assms a b obtain sl where
    c: "stepLiteMode e (stepInstantX e (stepAnonymize e (stepDarksend e sm))) = Inr sl"
    by (cases "stepLiteMode e (stepInstantX e (stepAnonymize e (stepDarksend e sm)))")
       (simp_all add: AppInit2_steps_split runSteps_append pure_def)
  from assms a b c have "s' = stepStartNode e (stepReindexAddr e (stepDarksendPool e sl))"
    by (simp add: AppInit2_steps_split runSteps_append pure_def)
  with a b c show ?thesis using that by blast
qed

lemma stepMasternode_Inr:
  "stepMasternode e s1 = Inr sm \<Longrightarrow>
     mapArgs sm = mapArgs s1 \<and> fMasterNode sm = GetBoolArg e s1 ''-masternode'' False"
  by (auto simp: stepMasternode_def Let_def leave_def emit_def split: if_splits)

lemma stepLiteMode_Inr:
  "stepLiteMode e s = Inr sl \<Longrightarrow> sl = s\<lparr>fLiteMode := GetBoolArg e s ''-litemode'' False\<rparr>"
  by (auto simp: stepLiteMode_def Let_def leave_def split: if_splits)

lemma tail_fields [simp]:
  "fEnableDarksend (stepStartNode e (stepReindexAddr e (stepDarksendPool e s))) = fEnableDarksend s"
  "nDarksendRounds (stepStartNode e (stepReindexAddr e (stepDarksendPool e s))) = nDarksendRounds s"
  "nAnonymizeSwippAmount (stepStartNode e (stepReindexAddr e (stepDarksendPool e s)))
     = nAnonymizeSwippAmount s"
  "nInstantXDepth (stepStartNode e (stepReindexAddr e (stepDarksendPool e s))) = nInstantXDepth s"
  by (simp_all add: stepStartNode_def stepReindexAddr_def stepDarksendPool_def emit_def Let_def)

lemma darksend_later_fields [simp]:
  "fEnableDarksend (stepInstantX e (stepAnonymize e s)) = fEnableDarksend s"
  "nDarksendRounds (stepInstantX e (stepAnonymize e s)) = nDarksendRounds s"
  by (simp_all add: stepInstantX_def stepAnonymize_def Let_def)

lemma stepDarksend_liquidity:
  "GetArg e s ''-liquidityprovider'' 0 \<noteq> 0 \<Longrightarrow>
     fEnableDarksend (stepDarksend e s) \<and> nDarksendRounds (stepDarksend e s) = 99999"
  by (simp add: stepDarksend_def Let_def GetArg_def emit_def)

subsection \<open>Liquidity provider\<close>

text \<open>
  C10. Whenever the liquidity-provider option reads as a nonzero number, the mixing
  block leaves Darksend enabled and the round count at 99999, whatever was supplied for
  enabledarksend and darksendrounds and in spite of the clamp to 16 applied just before;
  a run of \<open>AppInit2\<close> that reaches its last line still has these values.
\<close>

theorem liquidity_provider_forces_mixing:
  assumes "GetArg e s ''-liquidityprovider'' 0 \<noteq> 0"
  shows "fEnableDarksend (stepDarksend e s) \<and> nDarksendRounds (stepDarksend e s) = 99999
         \<and> (\<forall>s'. runSteps (AppInit2_steps e) s = Inr s'
               \<longrightarrow> fEnableDarksend s' \<and> nDarksendRounds s' = 99999)"
proof -
  have whole: "fEnableDarksend s' \<and> nDarksendRounds s' = 99999"
    if run: "runSteps (AppInit2_steps e) s = Inr s'" for s'
  proof -
    from run obtain s1 sm sl where
      a: "runSteps (stepsBeforeModes e) s = Inr s1" and
      b: "stepMasternode e s1 = Inr sm" and
      c: "stepLiteMode e (stepInstantX e (stepAnonymize e (stepDarksend e sm))) = Inr sl" and
      d: "s' = stepStartNode e (stepReindexAddr e (stepDarksendPool e sl))"
      by (rule AppInit2_reaches_end)
    have "mapArgs sm ''-liquidityprovider'' = mapArgs s ''-liquidityprovider''"
      using stepsBeforeModes_other [OF a, of "''-liquidityprovider''"] stepMasternode_Inr [OF b]
      by (simp add: softKeys_def)
    then have "GetArg e sm ''-liquidityprovider'' 0 \<noteq> 0"
      using assms by (simp add: GetArg_def)
    then have "fEnableDarksend (stepDarksend e sm) \<and> nDarksendRounds (stepDarksend e sm) = 99999"
      by (rule stepDarksend_liquidity)
    then show ?thesis
      using stepLiteMode_Inr [OF c] d by simp
  qed
  show ?thesis
    using stepDarksend_liquidity [OF assms] whole by blast
qed

theorem liquidity_provider_forces_mixing_witness:
  "GetArg collab0 liquidityArgs ''-liquidityprovider'' 0 \<noteq> 0
   \<and> fEnableDarksend (stepDarksend collab0 liquidityArgs)
   \<and> nDarksendRounds (stepDarksend collab0 liquidityArgs) = 99999
   \<and> (\<exists>s'. runSteps (AppInit2_steps collab0) liquidityArgs = Inr s'
          \<and> fEnableDarksend s' \<and> nDarksendRounds s' = 99999)"
proof -
  have h: "GetArg collab0 liquidityArgs ''-liquidityprovider'' 0 \<noteq> 0"
    by code_simp
  have "\<not> isl (runSteps (AppInit2_steps collab0) liquidityArgs)"
    by code_simp
  then obtain s' where run: "runSteps (AppInit2_steps collab0) liquidityArgs = Inr s'"
    by (cases "runSteps (AppInit2_steps collab0) liquidityArgs") simp_all
  show ?thesis
    using liquidity_provider_forces_mixing [OF h] h run by blast
qed

subsection \<open>InstantX depth\<close>

lemma stepInstantX_negative:
  "GetBoolArg e s ''-enableinstantx'' True \<Longrightarrow> GetArg e s ''-instantxdepth'' 5 < 0 \<Longrightarrow>
     nAnonymizeSwippAmount (stepInstantX e s) = 0
     \<and> nInstantXDepth (stepInstantX e s) = GetArg e s ''-instantxdepth'' 5"
  by (simp add: stepInstantX_def Let_def GetArg_def GetBoolArg_def)

text \<open>
  C9. With InstantX enabled and a negative configured depth, the depth block sets the
  anonymization amount to zero (also right after the amount has been clamped to at
  least 2) and leaves the negative depth as it is; a run of \<open>AppInit2\<close> that reaches its
  last line ends with these two values.
\<close>

theorem instantx_negative_depth_clears_amount:
  assumes "GetBoolArg e s ''-enableinstantx'' True" and "GetArg e s ''-instantxdepth'' 5 < 0"
  shows "nAnonymizeSwippAmount (stepInstantX e s) = 0
         \<and> nInstantXDepth (stepInstantX e s) = GetArg e s ''-instantxdepth'' 5
         \<and> nAnonymizeSwippAmount (stepInstantX e (stepAnonymize e s)) = 0
         \<and> (\<forall>s'. runSteps (AppInit2_steps e) s = Inr s'
               \<longrightarrow> nAnonymizeSwippAmount s' = 0
                   \<and> nInstantXDepth s' = GetArg e s ''-instantxdepth'' 5)"
proof -
  have after: "nAnonymizeSwippAmount (stepInstantX e t) = 0
      \<and> nInstantXDepth (stepInstantX e t) = GetArg e s ''-instantxdepth'' 5"
    if "mapArgs t ''-enableinstantx'' = mapArgs s ''-enableinstantx''"
      and "mapArgs t ''-instantxdepth'' = mapArgs s ''-instantxdepth''" for t :: node
    using stepInstantX_negative [of e t] that assms
    by (simp add: GetArg_def GetBoolArg_def)
  have whole: "nAnonymizeSwippAmount s' = 0 \<and> nInstantXDepth s' = GetArg e s ''-instantxdepth'' 5"
    if run: "runSteps (AppInit2_steps e) s = Inr s'" for s'
  proof -
    from run obtain s1 sm sl where
      a: "runSteps (stepsBeforeModes e) s = Inr s1" and
      b: "stepMasternode e s1 = Inr sm" and
      c: "stepLiteMode e (stepInstantX e (stepAnonymize e (stepDarksend e sm))) = Inr sl" and
      d: "s' = stepStartNode e (stepReindexAddr e (stepDarksendPool e sl))"
      by (rule AppInit2_reaches_end)
    have "mapArgs sm ''-enableinstantx'' = mapArgs s ''-enableinstantx''"
      "mapArgs sm ''-instantxdepth'' = mapArgs s ''-instantxdepth''"
      using stepsBeforeModes_other [OF a, of "''-enableinstantx''"]
        stepsBeforeModes_other [OF a, of "''-instantxdepth''"] stepMasternode_Inr [OF b]
      by (simp_all add: softKeys_def)
    then have "nAnonymizeSwippAmount (stepInstantX e (stepAnonymize e (stepDarksend e sm))) = 0
      \<and> nInstantXDepth (stepInstantX e (stepAnonymize e (stepDarksend e sm)))
          = GetArg e s ''-instantxdepth'' 5"
      using after [of "stepAnonymize e (stepDarksend e sm)"] by simp
    then show ?thesis
      using stepLiteMode_Inr [OF c] d by simp
  qed
  show ?thesis
    using stepInstantX_negative [OF assms] after [of "stepAnonymize e s"] whole by simp
qed

theorem instantx_negative_depth_clears_amount_witness:
  "GetBoolArg collab0 negativeDepthArgs ''-enableinstantx'' True
   \<and> GetArg collab0 negativeDepthArgs ''-instantxdepth'' 5 < 0
   \<and> nAnonymizeSwippAmount (stepAnonymize collab0 negativeDepthArgs) = 500
   \<and> nAnonymizeSwippAmount (stepInstantX collab0 (stepAnonymize collab0 negativeDepthArgs)) = 0
   \<and> nInstantXDepth (stepInstantX collab0 negativeDepthArgs) = - 3
   \<and> (\<exists>s'. runSteps (AppInit2_steps collab0) negativeDepthArgs = Inr s'
          \<and> nAnonymizeSwippAmount s' = 0 \<and> nInstantXDepth s' = - 3)"
proof -
  have h1: "GetBoolArg collab0 negativeDepthArgs ''-enableinstantx'' True"
    by code_simp
  have h2: "GetArg collab0 negativeDepthArgs ''-instantxdepth'' 5 < 0"
    by code_simp
  have v: "GetArg collab0 negativeDepthArgs ''-instantxdepth'' 5 = - 3"
    by code_simp
  have a: "nAnonymizeSwippAmount (stepAnonymize collab0 negativeDepthArgs) = 500"
    by code_simp
  have "\<not> isl (runSteps (AppInit2_steps collab0) negativeDepthArgs)"
    by code_simp
  then obtain s' where run: "runSteps (AppInit2_steps collab0) negativeDepthArgs = Inr s'"
    by (cases "runSteps (AppInit2_steps collab0) negativeDepthArgs") simp_all
  show ?thesis
    using instantx_negative_depth_clears_amount [OF h1 h2] h1 h2 v a run by auto
qed

subsection \<open>Sentinel keys of the seen-stake sets\<close>

text \<open>
  C7, as stated, fails: starting from sets without sentinels, \<open>InitializeCollections\<close>
  leaves the main-chain set without a deleted-key sentinel.
\<close>

theorem main_stake_set_deleted_key_counterexample:
  "deleted_key (setStakeSeen (InitializeCollections collab0 node0)) = None"
  by (simp add: InitializeCollections_def set_empty_key_def set_deleted_key_def node0_def Let_def)

lemma probe_find_real:
  "probe_find st key pos fuel \<Longrightarrow> fuel \<le> length (slots st) \<Longrightarrow>
     Some key \<noteq> empty_key st \<and> Some key \<noteq> deleted_key st \<and> key \<in> set (slots st)"
proof (induction fuel arbitrary: pos)
  case 0
  then show ?case by simp
next
  case (Suc fuel)
  have len: "0 < length (slots st)" using Suc.prems(2) by auto
  then have mem: "slots st ! (pos mod length (slots st)) \<in> set (slots st)"
    by simp
  let ?slot = "slots st ! (pos mod length (slots st))"
  have rec: "probe_find st key (pos + 1) fuel \<Longrightarrow> ?case"
    using Suc.IH [of "pos + 1"] Suc.prems(2) by simp
  show ?case
  proof (cases "Some ?slot = empty_key st \<or> Some ?slot = deleted_key st")
    case True
    then have "probe_find st key (pos + 1) fuel"
      using Suc.prems(1) by (auto simp: Let_def split: if_splits)
    then show ?thesis by (rule rec)
  next
    case False
    show ?thesis
    proof (cases "?slot = key")
      case True
      then show ?thesis using False mem by auto
    next
      case no: False
      then have "probe_find st key (pos + 1) fuel"
        using Suc.prems(1) False by (auto simp: Let_def split: if_splits)
      then show ?thesis by (rule rec)
    qed
  qed
qed

lemma count_key_real:
  "count_key e st key \<Longrightarrow>
     Some key \<noteq> empty_key st \<and> Some key \<noteq> deleted_key st \<and> key \<in> set (slots st)"
  using probe_find_real [of st key "first_slot e st key" "length (slots st)"]
  by (simp add: count_key_def)

lemma count_key_sentinel:
  "Some key = empty_key st \<or> Some key = deleted_key st \<Longrightarrow> \<not> count_key e st key"
  using count_key_real [of e st key] by auto

lemma insert_key_sentinel:
  "empty_key st = Some key \<Longrightarrow> insert_key e st key = Inl InsertEmptyKey"
  "empty_key st = Some k \<Longrightarrow> key \<noteq> k \<Longrightarrow> deleted_key st = Some key
     \<Longrightarrow> insert_key e st key = Inl InsertDeletedKey"
  by (simp_all add: insert_key_def)

lemma InitializeCollections_sets:
  "empty_key (setStakeSeen (InitializeCollections e s)) = Some (COutPoint0 e, - 1)"
  "deleted_key (setStakeSeen (InitializeCollections e s)) = deleted_key (setStakeSeen s)"
  "empty_key (setStakeSeenOrphan (InitializeCollections e s)) = Some (COutPoint0 e, - 1)"
  "deleted_key (setStakeSeenOrphan (InitializeCollections e s)) = Some (COutPoint0 e, - 2)"
  "slots (setStakeSeen (InitializeCollections e s)) = replicate (num_buckets e) (COutPoint0 e, - 1)"
  "slots (setStakeSeenOrphan (InitializeCollections e s))
     = replicate (num_buckets e) (COutPoint0 e, - 1)"
  by (simp_all add: InitializeCollections_def set_empty_key_def set_deleted_key_def Let_def)


text \<open>
  C7, amended. \<open>InitializeCollections\<close> gives the orphan set an empty-key sentinel
  (null outpoint, largest timestamp) and a deleted-key sentinel (null outpoint, largest
  timestamp minus one), which differ; the main-chain set gets the same empty-key sentinel
  and its deleted-key slot is left as it was. A key whose outpoint is not the null
  outpoint, or whose timestamp lies below both sentinel timestamps, differs from every
  configured sentinel. Whatever the slots of either set hold, a configured sentinel is
  never reported present, a key reported present is not a sentinel and is held in a
  slot, and inserting a key equal to a configured sentinel is refused.
\<close>

theorem stake_set_sentinels:
  "empty_key (setStakeSeen (InitializeCollections e s)) = Some (COutPoint0 e, - 1)
   \<and> deleted_key (setStakeSeen (InitializeCollections e s)) = deleted_key (setStakeSeen s)
   \<and> empty_key (setStakeSeenOrphan (InitializeCollections e s)) = Some (COutPoint0 e, - 1)
   \<and> deleted_key (setStakeSeenOrphan (InitializeCollections e s)) = Some (COutPoint0 e, - 2)
   \<and> empty_key (setStakeSeenOrphan (InitializeCollections e s))
       \<noteq> deleted_key (setStakeSeenOrphan (InitializeCollections e s))
   \<and> (fst key \<noteq> COutPoint0 e \<or> snd key < - 2 \<longrightarrow>
        Some key \<noteq> empty_key (setStakeSeen (InitializeCollections e s))
        \<and> Some key \<noteq> empty_key (setStakeSeenOrphan (InitializeCollections e s))
        \<and> Some key \<noteq> deleted_key (setStakeSeenOrphan (InitializeCollections e s)))
   \<and> \<not> count_key e ((setStakeSeen (InitializeCollections e s))\<lparr>slots := tbl\<rparr>)
          (COutPoint0 e, - 1)
   \<and> \<not> count_key e ((setStakeSeenOrphan (InitializeCollections e s))\<lparr>slots := tbl\<rparr>)
          (COutPoint0 e, - 1)
   \<and> \<not> count_key e ((setStakeSeenOrphan (InitializeCollections e s))\<lparr>slots := tbl\<rparr>)
          (COutPoint0 e, - 2)
   \<and> (count_key e ((setStakeSeen (InitializeCollections e s))\<lparr>slots := tbl\<rparr>) key \<longrightarrow>
        key \<noteq> (COutPoint0 e, - 1) \<and> key \<in> set tbl)
   \<and> (count_key e ((setStakeSeenOrphan (InitializeCollections e s))\<lparr>slots := tbl\<rparr>) key \<longrightarrow>
        key \<noteq> (COutPoint0 e, - 1) \<and> key \<noteq> (COutPoint0 e, - 2) \<and> key \<in> set tbl)
   \<and> insert_key e ((setStakeSeen (InitializeCollections e s))\<lparr>slots := tbl\<rparr>)
         (COutPoint0 e, - 1) = Inl InsertEmptyKey
   \<and> insert_key e ((setStakeSeenOrphan (InitializeCollections e s))\<lparr>slots := tbl\<rparr>)
         (COutPoint0 e, - 1) = Inl InsertEmptyKey
   \<and> insert_key e ((setStakeSeenOrphan (InitializeCollections e s))\<lparr>slots := tbl\<rparr>)
         (COutPoint0 e, - 2) = Inl InsertDeletedKey"
proof -
  let ?M = "(setStakeSeen (InitializeCollections e s))\<lparr>slots := tbl\<rparr>"
  let ?O = "(setStakeSeenOrphan (InitializeCollections e s))\<lparr>slots := tbl\<rparr>"
  note I = InitializeCollections_sets [of e s]
  have ne: "(- 1 :: 32 word) \<noteq> - 2" by simp
  have lt: "snd key < - 2 \<Longrightarrow> snd key \<noteq> - 1 \<and> snd key \<noteq> - 2"
  proof -
    assume a: "snd key < - 2"
    have "(- 2 :: 32 word) < - 1" by simp
    then show ?thesis using a by auto
  qed
  have M: "empty_key ?M = Some (COutPoint0 e, - 1)" "slots ?M = tbl"
    by (simp_all add: I)
  have O: "empty_key ?O = Some (COutPoint0 e, - 1)" "deleted_key ?O = Some (COutPoint0 e, - 2)"
    "slots ?O = tbl"
    by (simp_all add: I)
  have c1: "empty_key (setStakeSeenOrphan (InitializeCollections e s))
       \<noteq> deleted_key (setStakeSeenOrphan (InitializeCollections e s))"
    using ne by (simp add: I)
  have c2: "fst key \<noteq> COutPoint0 e \<or> snd key < - 2 \<longrightarrow>
        Some key \<noteq> empty_key (setStakeSeen (InitializeCollections e s))
        \<and> Some key \<noteq> empty_key (setStakeSeenOrphan (InitializeCollections e s))
        \<and> Some key \<noteq> deleted_key (setStakeSeenOrphan (InitializeCollections e s))"
    using lt by (cases key) (auto simp: I)
  have f1: "\<not> count_key e ?M (COutPoint0 e, - 1)"
    by (rule count_key_sentinel) (simp add: M)
  have f2: "\<not> count_key e ?O (COutPoint0 e, - 1)"
    by (rule count_key_sentinel) (simp add: O)
  have f3: "\<not> count_key e ?O (COutPoint0 e, - 2)"
    by (rule count_key_sentinel) (simp add: O)
  have g1: "count_key e ?M key \<longrightarrow> key \<noteq> (COutPoint0 e, - 1) \<and> key \<in> set tbl"
    using count_key_real [of e ?M key] by (auto simp: M)
  have g2: "count_key e ?O key \<longrightarrow>
        key \<noteq> (COutPoint0 e, - 1) \<and> key \<noteq> (COutPoint0 e, - 2) \<and> key \<in> set tbl"
    using count_key_real [of e ?O key] by (auto simp: O)
  have i1: "insert_key e ?M (COutPoint0 e, - 1) = Inl InsertEmptyKey"
    by (rule insert_key_sentinel(1)) (simp add: M)
  have i2: "insert_key e ?O (COutPoint0 e, - 1) = Inl InsertEmptyKey"
    by (rule insert_key_sentinel(1)) (simp add: O)
  have i3: "insert_key e ?O (COutPoint0 e, - 2) = Inl InsertDeletedKey"
    using ne by (intro insert_key_sentinel(2) [where k = "(COutPoint0 e, - 1)"]) (simp_all add: O)
  show ?thesis
    by (intro conjI I(1) I(2) I(3) I(4) c1 c2 f1 f2 f3 g1 g2 i1 i2 i3)
qed

theorem stake_set_sentinels_witness:
  "fst realKey \<noteq> COutPoint0 collab0
   \<and> snd realKey < - 2
   \<and> Some realKey \<noteq> empty_key (setStakeSeen (InitializeCollections collab0 node0))
   \<and> Some realKey \<noteq> empty_key (setStakeSeenOrphan (InitializeCollections collab0 node0))
   \<and> Some realKey \<noteq> deleted_key (setStakeSeenOrphan (InitializeCollections collab0 node0))
   \<and> deleted_key (setStakeSeenOrphan (InitializeCollections collab0 node0))
       = Some (\<lparr>op_hash = 0, op_n = - 1\<rparr>, - 2)
   \<and> insert_key collab0 (setStakeSeenOrphan (InitializeCollections collab0 node0)) realKey
       = Inr ((setStakeSeenOrphan (InitializeCollections collab0 node0))\<lparr>slots := seenTable\<rparr>)
   \<and> count_key collab0
         ((setStakeSeenOrphan (InitializeCollections collab0 node0))\<lparr>slots := seenTable\<rparr>) realKey
   \<and> count_key collab0
         ((setStakeSeen (InitializeCollections collab0 node0))\<lparr>slots := seenTable\<rparr>) realKey
   \<and> realKey \<noteq> (COutPoint0 collab0, - 1)
   \<and> realKey \<noteq> (COutPoint0 collab0, - 2)
   \<and> realKey \<in> set seenTable
   \<and> \<not> count_key collab0
         ((setStakeSeen (InitializeCollections collab0 node0))\<lparr>slots := seenTable\<rparr>)
         (COutPoint0 collab0, - 1)
   \<and> \<not> count_key collab0
         ((setStakeSeenOrphan (InitializeCollections collab0 node0))\<lparr>slots := seenTable\<rparr>)
         (COutPoint0 collab0, - 1)
   \<and> \<not> count_key collab0
         ((setStakeSeenOrphan (InitializeCollections collab0 node0))\<lparr>slots := seenTable\<rparr>)
         (COutPoint0 collab0, - 2)
   \<and> insert_key collab0
         ((setStakeSeen (InitializeCollections collab0 node0))\<lparr>slots := seenTable\<rparr>)
         (COutPoint0 collab0, - 1) = Inl InsertEmptyKey
   \<and> insert_key collab0
         ((setStakeSeenOrphan (InitializeCollections collab0 node0))\<lparr>slots := seenTable\<rparr>)
         (COutPoint0 collab0, - 1) = Inl InsertEmptyKey
   \<and> insert_key collab0
         ((setStakeSeenOrphan (InitializeCollections collab0 node0))\<lparr>slots := seenTable\<rparr>)
         (COutPoint0 collab0, - 2) = Inl InsertDeletedKey"
proof -
  note T = stake_set_sentinels [where e = collab0 and s = node0 and key = realKey
      and tbl = seenTable]
  note R1 = T [THEN conjunct2]
  note R2 = R1 [THEN conjunct2]
  note R3 = R2 [THEN conjunct2]
  note R4 = R3 [THEN conjunct2]
  note R5 = R4 [THEN conjunct2]
  note R6 = R5 [THEN conjunct2]
  note R7 = R6 [THEN conjunct2]
  note R8 = R7 [THEN conjunct2]
  note R9 = R8 [THEN conjunct2]
  note R10 = R9 [THEN conjunct2]
  note R11 = R10 [THEN conjunct2]
  note R12 = R11 [THEN conjunct2]
  have h1: "fst realKey \<noteq> COutPoint0 collab0"
    by (simp add: realKey_def collab0_def)
  have h2: "snd realKey < - 2"
    by (simp add: realKey_def)
  have c: "COutPoint0 collab0 = \<lparr>op_hash = 0, op_n = - 1\<rparr>"
    by (simp add: collab0_def)
  have ins: "insert_key collab0 (setStakeSeenOrphan (InitializeCollections collab0 node0)) realKey
       = Inr ((setStakeSeenOrphan (InitializeCollections collab0 node0))\<lparr>slots := seenTable\<rparr>)"
    by code_simp
  have inO: "count_key collab0
       ((setStakeSeenOrphan (InitializeCollections collab0 node0))\<lparr>slots := seenTable\<rparr>) realKey"
    by code_simp
  have inM: "count_key collab0
       ((setStakeSeen (InitializeCollections collab0 node0))\<lparr>slots := seenTable\<rparr>) realKey"
    by code_simp
  have d: "Some realKey \<noteq> empty_key (setStakeSeen (InitializeCollections collab0 node0))
      \<and> Some realKey \<noteq> empty_key (setStakeSeenOrphan (InitializeCollections collab0 node0))
      \<and> Some realKey \<noteq> deleted_key (setStakeSeenOrphan (InitializeCollections collab0 node0))"
    using R5 [THEN conjunct1] h1 by blast
  have del: "deleted_key (setStakeSeenOrphan (InitializeCollections collab0 node0))
       = Some (\<lparr>op_hash = 0, op_n = - 1\<rparr>, - 2)"
    using R3 [THEN conjunct1] c by simp
  have real: "realKey \<noteq> (COutPoint0 collab0, - 1) \<and> realKey \<noteq> (COutPoint0 collab0, - 2)
      \<and> realKey \<in> set seenTable"
    using R10 [THEN conjunct1] inO by blast
  show ?thesis
    by (intro conjI h1 h2 d [THEN conjunct1] d [THEN conjunct2, THEN conjunct1]
        d [THEN conjunct2, THEN conjunct2] del ins inO inM real [THEN conjunct1]
        real [THEN conjunct2, THEN conjunct1] real [THEN conjunct2, THEN conjunct2]
        R6 [THEN conjunct1] R7 [THEN conjunct1] R8 [THEN conjunct1] R11 [THEN conjunct1]
        R12 [THEN conjunct1] R12 [THEN conjunct2])
qed

subsection \<open>Wallet rescan\<close>

lemma rescanStart_cases:
  "rescanStart e s =
     (if GetBoolArg e s ''-rescan'' False then pindexGenesisBlock s
      else case ReadBestBlock e of
             None \<Rightarrow> pindexGenesisBlock s
           | Some locator \<Rightarrow> GetBlockIndex e locator)"
  by (simp add: rescanStart_def split: option.splits)

lemma needRescan_iff:
  "needRescan e s p \<longleftrightarrow>
     (\<exists>best start. pindexBest s = Some best \<and> p = Some start \<and> nHeight e start < nHeight e best)"
  by (auto simp: needRescan_def split: option.splits)

lemma rescan_emit [simp]:
  "rescanStart e (emit ev s) = rescanStart e s"
  "needRescan e (emit ev s) p = needRescan e s p"
  by (simp_all add: rescanStart_def needRescan_def GetBoolArg_def emit_def split: option.splits)

lemma trace_walletRescan:
  "trace (walletRescan e s) =
     trace s @ [Wallet RegisterWallet] @
       (if needRescan e s (rescanStart e s)
        then [Wallet (ScanForWalletTransactions (rescanStart e s)),
              Wallet (SetBestChain (pindexBest s))]
        else [])"
  by (simp add: walletRescan_def Let_def) (simp add: emit_def)

text \<open>
  C6. The rescan starts from the genesis block when a rescan was requested, otherwise
  from the block the wallet's stored locator refers to, or from genesis when the wallet
  stores none. The wallet is scanned only from that start and only when the best block
  and the start both exist and the best height strictly exceeds the start's height; when
  the start's height is at least the best height nothing is scanned, and when it is
  lower the scan is made.
\<close>

theorem rescan_start_and_span:
  "(GetBoolArg e s ''-rescan'' False \<longrightarrow> rescanStart e s = pindexGenesisBlock s)
   \<and> (\<not> GetBoolArg e s ''-rescan'' False \<longrightarrow>
        (\<forall>locator. ReadBestBlock e = Some locator \<longrightarrow> rescanStart e s = GetBlockIndex e locator)
        \<and> (ReadBestBlock e = None \<longrightarrow> rescanStart e s = pindexGenesisBlock s))
   \<and> (Wallet (ScanForWalletTransactions p) \<in> set (trace (walletRescan e s))
        \<and> Wallet (ScanForWalletTransactions p) \<notin> set (trace s) \<longrightarrow>
          p = rescanStart e s
          \<and> (\<exists>best start. pindexBest s = Some best \<and> p = Some start
                \<and> nHeight e start < nHeight e best))
   \<and> (\<forall>best start. pindexBest s = Some best \<and> rescanStart e s = Some start
          \<and> nHeight e best \<le> nHeight e start \<longrightarrow>
          trace (walletRescan e s) = trace s @ [Wallet RegisterWallet]
          \<and> nWalletDBUpdated (walletRescan e s) = nWalletDBUpdated s)
   \<and> (\<forall>best start. pindexBest s = Some best \<and> rescanStart e s = Some start
          \<and> nHeight e start < nHeight e best \<longrightarrow>
          Wallet (ScanForWalletTransactions (Some start)) \<in> set (trace (walletRescan e s)))"
proof -
  have a: "GetBoolArg e s ''-rescan'' False \<longrightarrow> rescanStart e s = pindexGenesisBlock s"
    by (simp add: rescanStart_cases)
  have b: "\<not> GetBoolArg e s ''-rescan'' False \<longrightarrow>
        (\<forall>locator. ReadBestBlock e = Some locator \<longrightarrow> rescanStart e s = GetBlockIndex e locator)
        \<and> (ReadBestBlock e = None \<longrightarrow> rescanStart e s = pindexGenesisBlock s)"
    by (simp add: rescanStart_cases)
  have c: "Wallet (ScanForWalletTransactions p) \<in> set (trace (walletRescan e s))
        \<and> Wallet (ScanForWalletTransactions p) \<notin> set (trace s) \<longrightarrow>
          p = rescanStart e s
          \<and> (\<exists>best start. pindexBest s = Some best \<and> p = Some start
                \<and> nHeight e start < nHeight e best)"
    using needRescan_iff [of e s "rescanStart e s"]
    by (auto simp: trace_walletRescan split: if_splits)
  have d: "\<forall>best start. pindexBest s = Some best \<and> rescanStart e s = Some start
          \<and> nHeight e best \<le> nHeight e start \<longrightarrow>
          trace (walletRescan e s) = trace s @ [Wallet RegisterWallet]
          \<and> nWalletDBUpdated (walletRescan e s) = nWalletDBUpdated s"
  proof (intro allI impI)
    fix best start
    assume h: "pindexBest s = Some best \<and> rescanStart e s = Some start
          \<and> nHeight e best \<le> nHeight e start"
    then have n: "\<not> needRescan e s (rescanStart e s)"
      by (auto simp: needRescan_iff)
    have "nWalletDBUpdated (walletRescan e s) = nWalletDBUpdated s"
      using n by (simp add: walletRescan_def Let_def) (simp add: emit_def)
    then show "trace (walletRescan e s) = trace s @ [Wallet RegisterWallet]
          \<and> nWalletDBUpdated (walletRescan e s) = nWalletDBUpdated s"
      using n by (simp add: trace_walletRescan)
  qed
  have f: "\<forall>best start. pindexBest s = Some best \<and> rescanStart e s = Some start
          \<and> nHeight e start < nHeight e best \<longrightarrow>
          Wallet (ScanForWalletTransactions (Some start)) \<in> set (trace (walletRescan e s))"
    by (auto simp: trace_walletRescan needRescan_iff)
  show ?thesis
    using a b c d f by blast
qed

theorem rescan_start_and_span_witness:
  "GetBoolArg collab0 rescanArgs ''-rescan'' False
   \<and> rescanStart collab0 rescanArgs = Some 0
   \<and> \<not> GetBoolArg collab0 loadedNode ''-rescan'' False
   \<and> ReadBestBlock collab0 = Some [5]
   \<and> rescanStart collab0 loadedNode = Some 5
   \<and> pindexBest loadedNode = Some 7
   \<and> nHeight collab0 5 < nHeight collab0 7
   \<and> Wallet (ScanForWalletTransactions (Some 5)) \<in> set (trace (walletRescan collab0 loadedNode))
   \<and> \<not> GetBoolArg collabAhead loadedNode ''-rescan'' False
   \<and> ReadBestBlock collabAhead = Some [9]
   \<and> rescanStart collabAhead loadedNode = Some 9
   \<and> nHeight collabAhead 7 \<le> nHeight collabAhead 9
   \<and> trace (walletRescan collabAhead loadedNode) = trace loadedNode @ [Wallet RegisterWallet]"
proof -
  have a: "GetBoolArg collab0 rescanArgs ''-rescan'' False" by code_simp
  have a': "pindexGenesisBlock rescanArgs = Some 0" by code_simp
  have b: "\<not> GetBoolArg collab0 loadedNode ''-rescan'' False" by code_simp
  have c: "ReadBestBlock collab0 = Some [5]" by code_simp
  have c': "GetBlockIndex collab0 [5] = Some 5" by code_simp
  have d: "pindexBest loadedNode = Some 7" by code_simp
  have f: "nHeight collab0 5 < nHeight collab0 7" by code_simp
  have g: "\<not> GetBoolArg collabAhead loadedNode ''-rescan'' False" by code_simp
  have h: "ReadBestBlock collabAhead = Some [9]" by code_simp
  have h': "GetBlockIndex collabAhead [9] = Some 9" by code_simp
  have i: "nHeight collabAhead 7 \<le> nHeight collabAhead 9" by code_simp
  have r1: "rescanStart collab0 rescanArgs = Some 0"
    using rescan_start_and_span [of collab0 rescanArgs] a a' by simp
  have r2: "rescanStart collab0 loadedNode = Some 5"
    using rescan_start_and_span [of collab0 loadedNode] b c c' by simp
  have r3: "Wallet (ScanForWalletTransactions (Some 5)) \<in> set (trace (walletRescan collab0 loadedNode))"
    using rescan_start_and_span [of collab0 loadedNode] r2 d f by blast
  have r4: "rescanStart collabAhead loadedNode = Some 9"
    using rescan_start_and_span [of collabAhead loadedNode] g h h' by simp
  have r5: "trace (walletRescan collabAhead loadedNode) = trace loadedNode @ [Wallet RegisterWallet]"
    using rescan_start_and_span [of collabAhead loadedNode] r4 d i by blast
  show ?thesis
    using a b c d f g h i r1 r2 r3 r4 r5 by simp
qed

subsection \<open>Shutdown\<close>

lemma trace_teardown:
  "trace (teardown e s) =
     trace s @ [Util RenameThread, Net AddTransactionsUpdated, Rpc StopRPCThreads,
                Net SecureMsgShutdown]
       @ (if ENABLE_WALLET e then [Rpc ShutdownRPCMining] else [])
       @ (if ENABLE_WALLET e \<and> pwalletMain s \<noteq> None then [Wallet (BitdbFlush False)] else [])
       @ [Net StopNode]
       @ (if ENABLE_WALLET e \<and> pwalletMain s \<noteq> None
          then [Wallet (SetBestChain (pindexBest s)), Wallet (BitdbFlush True)] else [])
       @ [Util RemovePidFile, Wallet UnregisterAllWallets]
       @ (if ENABLE_WALLET e \<and> pwalletMain s \<noteq> None then [Wallet DeleteWallet] else [])"
  by (simp add: teardown_def Let_def emit_def)

lemma teardown_fields:
  "cs_Shutdown (teardown e s) = cs_Shutdown s"
  "pwalletMain (teardown e s) = (if ENABLE_WALLET e then None else pwalletMain s)"
  "pindexBest (teardown e s) = pindexBest s"
  by (simp_all add: teardown_def Let_def emit_def)

text \<open>
  C5, as stated, fails: with a wallet loaded, peer networking is stopped before the
  best-chain pointer is stored and before the final wallet flush, not after them.
\<close>

theorem shutdown_order_counterexample:
  "precedes (Net StopNode) (Wallet (SetBestChain (Some 7))) (trace (Shutdown collab0 walletNode))
   \<and> \<not> precedes (Wallet (SetBestChain (Some 7))) (Net StopNode)
         (trace (Shutdown collab0 walletNode))
   \<and> \<not> precedes (Wallet (BitdbFlush True)) (Net StopNode) (trace (Shutdown collab0 walletNode))"
  by code_simp

text \<open>
  C5, amended. A \<open>Shutdown\<close> that gets the lock makes these calls in this order: the RPC
  threads are stopped (with secure messaging and RPC mining), the wallet database is
  flushed without shutdown, peer networking is stopped, the best-chain pointer is stored,
  the wallet database is flushed with shutdown, the pid file is removed, the wallets
  are unregistered and the wallet object is deleted; the wallet calls are made only in a
  wallet build with a wallet loaded.
\<close>

theorem shutdown_order:
  assumes "\<not> cs_Shutdown s"
  shows "trace (Shutdown e s) =
     trace s @ [Util RenameThread, Net AddTransactionsUpdated, Rpc StopRPCThreads,
                Net SecureMsgShutdown]
       @ (if ENABLE_WALLET e then [Rpc ShutdownRPCMining] else [])
       @ (if ENABLE_WALLET e \<and> pwalletMain s \<noteq> None then [Wallet (BitdbFlush False)] else [])
       @ [Net StopNode]
       @ (if ENABLE_WALLET e \<and> pwalletMain s \<noteq> None
          then [Wallet (SetBestChain (pindexBest s)), Wallet (BitdbFlush True)] else [])
       @ [Util RemovePidFile, Wallet UnregisterAllWallets]
       @ (if ENABLE_WALLET e \<and> pwalletMain s \<noteq> None then [Wallet DeleteWallet] else [])"
  using assms by (simp add: Shutdown_def trace_teardown)

theorem shutdown_order_witness:
  "\<not> cs_Shutdown walletNode
   \<and> trace (Shutdown collab0 walletNode) =
       [Util RenameThread, Net AddTransactionsUpdated, Rpc StopRPCThreads,
        Net SecureMsgShutdown, Rpc ShutdownRPCMining, Wallet (BitdbFlush False), Net StopNode,
        Wallet (SetBestChain (Some 7)), Wallet (BitdbFlush True), Util RemovePidFile,
        Wallet UnregisterAllWallets, Wallet DeleteWallet]"
proof -
  have h: "\<not> cs_Shutdown walletNode" by code_simp
  have f: "ENABLE_WALLET collab0" "pwalletMain walletNode = Some ''wallet.dat''"
    "pindexBest walletNode = Some 7" "trace walletNode = []"
    by code_simp+
  show ?thesis
    using shutdown_order [OF h, of collab0] h f by simp
qed

text \<open>
  C4, as stated, fails: two calls of \<open>Shutdown\<close> one after the other both run the
  teardown; peer networking is stopped twice and the pid file is removed twice.
\<close>

theorem shutdown_twice_counterexample:
  "count_list (trace (Shutdown collab0 (Shutdown collab0 walletNode))) (Net StopNode) = 2
   \<and> count_list (trace (Shutdown collab0 (Shutdown collab0 walletNode))) (Util RemovePidFile) = 2"
  by code_simp

text \<open>
  C4, amended. A call of \<open>Shutdown\<close> made while the shutdown lock is held returns at
  once and changes nothing. A call that gets the lock runs the teardown and gives the
  lock back, so a call made after it has returned runs the teardown again, without the
  wallet calls since the wallet pointer has been cleared.
\<close>

theorem shutdown_lock:
  "(cs_Shutdown s \<longrightarrow> Shutdown e s = s)
   \<and> (\<not> cs_Shutdown s \<longrightarrow>
        \<not> cs_Shutdown (Shutdown e s)
        \<and> (ENABLE_WALLET e \<longrightarrow> pwalletMain (Shutdown e s) = None)
        \<and> trace (Shutdown e (Shutdown e s)) =
            trace (Shutdown e s)
              @ [Util RenameThread, Net AddTransactionsUpdated, Rpc StopRPCThreads,
                 Net SecureMsgShutdown]
              @ (if ENABLE_WALLET e then [Rpc ShutdownRPCMining] else [])
              @ [Net StopNode]
              @ [Util RemovePidFile, Wallet UnregisterAllWallets])"
proof -
  have locked: "cs_Shutdown s \<longrightarrow> Shutdown e s = s"
    by (simp add: Shutdown_def)
  have free: "\<not> cs_Shutdown (Shutdown e s)" if "\<not> cs_Shutdown s"
    using that by (simp add: Shutdown_def)
  have wallet: "pwalletMain (Shutdown e s) = None" if "\<not> cs_Shutdown s" "ENABLE_WALLET e"
    using that by (simp add: Shutdown_def teardown_fields)
  have again: "trace (Shutdown e (Shutdown e s)) =
            trace (Shutdown e s)
              @ [Util RenameThread, Net AddTransactionsUpdated, Rpc StopRPCThreads,
                 Net SecureMsgShutdown]
              @ (if ENABLE_WALLET e then [Rpc ShutdownRPCMining] else [])
              @ [Net StopNode]
              @ [Util RemovePidFile, Wallet UnregisterAllWallets]" if n: "\<not> cs_Shutdown s"
  proof -
    have "trace (Shutdown e (Shutdown e s)) = trace (teardown e (Shutdown e s\<lparr>cs_Shutdown := True\<rparr>))"
      using free [OF n] by (simp add: Shutdown_def)
    also have "\<dots> = trace (Shutdown e s)
              @ [Util RenameThread, Net AddTransactionsUpdated, Rpc StopRPCThreads,
                 Net SecureMsgShutdown]
              @ (if ENABLE_WALLET e then [Rpc ShutdownRPCMining] else [])
              @ [Net StopNode]
              @ [Util RemovePidFile, Wallet UnregisterAllWallets]"
      using n by (simp add: trace_teardown) (simp add: Shutdown_def teardown_fields)
    finally show ?thesis .
  qed
  show ?thesis
    using locked free wallet again by simp
qed

theorem shutdown_lock_witness:
  "cs_Shutdown lockedNode
   \<and> trace (Shutdown collab0 lockedNode) = []
   \<and> \<not> cs_Shutdown walletNode
   \<and> \<not> cs_Shutdown (Shutdown collab0 walletNode)
   \<and> pwalletMain (Shutdown collab0 walletNode) = None
   \<and> trace (Shutdown collab0 (Shutdown collab0 walletNode)) =
       trace (Shutdown collab0 walletNode)
         @ [Util RenameThread, Net AddTransactionsUpdated, Rpc StopRPCThreads,
            Net SecureMsgShutdown, Rpc ShutdownRPCMining, Net StopNode, Util RemovePidFile,
            Wallet UnregisterAllWallets]"
proof -
  have h1: "cs_Shutdown lockedNode" by code_simp
  have h2: "\<not> cs_Shutdown walletNode" by code_simp
  have f: "ENABLE_WALLET collab0" "trace lockedNode = []" by code_simp+
  have "Shutdown collab0 lockedNode = lockedNode"
    using shutdown_lock [of lockedNode collab0] h1 by simp
  then have a: "trace (Shutdown collab0 lockedNode) = []"
    using f by simp
  show ?thesis
    using shutdown_lock [of walletNode collab0] h1 h2 f a by simp
qed

subsection \<open>Values outside their range\<close>

text \<open>
  C3, as stated, fails: with a timeout, a round count and an anonymization amount all
  outside their ranges, \<open>AppInit2\<close> still returns true; the timeout keeps its previous
  value and the other two are clamped.
\<close>

theorem out_of_range_accepted_counterexample:
  "fst (AppInit2 collab0 outOfRangeArgs) = ReturnValue True
   \<and> nConnectTimeout (snd (AppInit2 collab0 outOfRangeArgs)) = 5000
   \<and> nDarksendRounds (snd (AppInit2 collab0 outOfRangeArgs)) = 16
   \<and> nAnonymizeSwippAmount (snd (AppInit2 collab0 outOfRangeArgs)) = 999999"
  by code_simp

text \<open>
  C3, amended. A value outside its range is not rejected. A timeout outside 1..599999 is
  ignored and the connection timeout keeps its value (one inside is taken over); the
  round count becomes the supplied number clamped into 1..16 when no liquidity provider
  is set; the anonymization amount becomes the supplied number clamped into 2..999999.
  An error that carries the offending value is returned for a transaction fee or a
  minimum input that does not parse as an amount.
\<close>

theorem out_of_range_values_clamped:
  "(count_arg (mapArgs s) ''-timeout''
      \<and> \<not> (0 < GetArg e s ''-timeout'' 5000 \<and> GetArg e s ''-timeout'' 5000 < 600000)
      \<longrightarrow> stepTimeout e s = s)
   \<and> (count_arg (mapArgs s) ''-timeout''
      \<and> 0 < GetArg e s ''-timeout'' 5000 \<and> GetArg e s ''-timeout'' 5000 < 600000
      \<longrightarrow> nConnectTimeout (stepTimeout e s) = GetArg e s ''-timeout'' 5000)
   \<and> (GetArg e s ''-liquidityprovider'' 0 = 0
      \<longrightarrow> nDarksendRounds (stepDarksend e s) = max 1 (min 16 (GetArg e s ''-darksendrounds'' 2)))
   \<and> nAnonymizeSwippAmount (stepAnonymize e s)
       = max 2 (min 999999 (GetArg e s ''-anonymizeSwippamount'' 0))
   \<and> (ENABLE_WALLET e \<and> mapArgs s ''-paytxfee'' = Some v \<and> ParseMoney e v = None
      \<longrightarrow> stepPaytxfee e s = Inl (InitError (InvalidAmountPaytxfee v), s))
   \<and> (ENABLE_WALLET e \<and> mapArgs s ''-mininput'' = Some v \<and> ParseMoney e v = None
      \<longrightarrow> stepMininput e s = Inl (InitError (InvalidAmountMininput v), s))"
proof -
  have a: "count_arg (mapArgs s) ''-timeout''
      \<and> \<not> (0 < GetArg e s ''-timeout'' 5000 \<and> GetArg e s ''-timeout'' 5000 < 600000)
      \<longrightarrow> stepTimeout e s = s"
    by (simp add: stepTimeout_def Let_def)
  have b: "count_arg (mapArgs s) ''-timeout''
      \<and> 0 < GetArg e s ''-timeout'' 5000 \<and> GetArg e s ''-timeout'' 5000 < 600000
      \<longrightarrow> nConnectTimeout (stepTimeout e s) = GetArg e s ''-timeout'' 5000"
    by (simp add: stepTimeout_def Let_def)
  have c: "GetArg e s ''-liquidityprovider'' 0 = 0
      \<longrightarrow> nDarksendRounds (stepDarksend e s) = max 1 (min 16 (GetArg e s ''-darksendrounds'' 2))"
    by (simp add: stepDarksend_def Let_def GetArg_def)
  have d: "nAnonymizeSwippAmount (stepAnonymize e s)
       = max 2 (min 999999 (GetArg e s ''-anonymizeSwippamount'' 0))"
    by (simp add: stepAnonymize_def Let_def GetArg_def)
  have f: "ENABLE_WALLET e \<and> mapArgs s ''-paytxfee'' = Some v \<and> ParseMoney e v = None
      \<longrightarrow> stepPaytxfee e s = Inl (InitError (InvalidAmountPaytxfee v), s)"
    by (simp add: stepPaytxfee_def leave_def)
  have g: "ENABLE_WALLET e \<and> mapArgs s ''-mininput'' = Some v \<and> ParseMoney e v = None
      \<longrightarrow> stepMininput e s = Inl (InitError (InvalidAmountMininput v), s)"
    by (simp add: stepMininput_def leave_def)
  show ?thesis
    by (intro conjI a b c d f g)
qed

theorem out_of_range_values_clamped_witness:
  "count_arg (mapArgs outOfRangeArgs) ''-timeout''
   \<and> \<not> (0 < GetArg collab0 outOfRangeArgs ''-timeout'' 5000
        \<and> GetArg collab0 outOfRangeArgs ''-timeout'' 5000 < 600000)
   \<and> nConnectTimeout (stepTimeout collab0 outOfRangeArgs) = 5000
   \<and> GetArg collab0 outOfRangeArgs ''-liquidityprovider'' 0 = 0
   \<and> nDarksendRounds (stepDarksend collab0 outOfRangeArgs) = 16
   \<and> nAnonymizeSwippAmount (stepAnonymize collab0 outOfRangeArgs) = 999999
   \<and> ENABLE_WALLET collab0 \<and> mapArgs badFeeArgs ''-paytxfee'' = Some []
   \<and> mapArgs badFeeArgs ''-mininput'' = Some [] \<and> ParseMoney collab0 [] = None
   \<and> stepPaytxfee collab0 badFeeArgs = Inl (InitError (InvalidAmountPaytxfee []), badFeeArgs)
   \<and> stepMininput collab0 badFeeArgs = Inl (InitError (InvalidAmountMininput []), badFeeArgs)"
proof -
  note T = out_of_range_values_clamped [of outOfRangeArgs collab0 "[]"]
  note U = out_of_range_values_clamped [of badFeeArgs collab0 "[]"]
  have h1: "count_arg (mapArgs outOfRangeArgs) ''-timeout''" by code_simp
  have h2: "\<not> (0 < GetArg collab0 outOfRangeArgs ''-timeout'' 5000
        \<and> GetArg collab0 outOfRangeArgs ''-timeout'' 5000 < 600000)" by code_simp
  have h3: "GetArg collab0 outOfRangeArgs ''-liquidityprovider'' 0 = 0" by code_simp
  have h4: "ENABLE_WALLET collab0" by code_simp
  have h5: "mapArgs badFeeArgs ''-paytxfee'' = Some []" by code_simp
  have h6: "mapArgs badFeeArgs ''-mininput'' = Some []" by code_simp
  have h7: "ParseMoney collab0 [] = None" by code_simp
  have v1: "nConnectTimeout outOfRangeArgs = 5000" by code_simp
  have v2: "GetArg collab0 outOfRangeArgs ''-darksendrounds'' 2 = 999" by code_simp
  have v3: "GetArg collab0 outOfRangeArgs ''-anonymizeSwippamount'' 0 = 5000000" by code_simp
  have "stepTimeout collab0 outOfRangeArgs = outOfRangeArgs"
    using T [THEN conjunct1] h1 h2 by simp
  then have r1: "nConnectTimeout (stepTimeout collab0 outOfRangeArgs) = 5000"
    using v1 by simp
  have r2: "nDarksendRounds (stepDarksend collab0 outOfRangeArgs) = 16"
    using T [THEN conjunct2, THEN conjunct2, THEN conjunct1] h3 v2 by simp
  have r3: "nAnonymizeSwippAmount (stepAnonymize collab0 outOfRangeArgs) = 999999"
    using T [THEN conjunct2, THEN conjunct2, THEN conjunct2, THEN conjunct1] v3 by simp
  have r4: "stepPaytxfee collab0 badFeeArgs = Inl (InitError (InvalidAmountPaytxfee []), badFeeArgs)"
    using U [THEN conjunct2, THEN conjunct2, THEN conjunct2, THEN conjunct2, THEN conjunct1]
      h4 h5 h7 by simp
  have r5: "stepMininput collab0 badFeeArgs = Inl (InitError (InvalidAmountMininput []), badFeeArgs)"
    using U [THEN conjunct2, THEN conjunct2, THEN conjunct2, THEN conjunct2, THEN conjunct2]
      h4 h6 h7 by simp
  show ?thesis
    by (intro conjI h1 h2 h3 h4 h5 h6 h7 r1 r2 r3 r4 r5)
qed

subsection \<open>A proxy and nothing else\<close>

lemma runSteps_all_Inr:
  assumes "\<And>f t. f \<in> set fs \<Longrightarrow> P t \<Longrightarrow> \<exists>t'. f t = Inr t' \<and> P t'"
    and "P s"
  shows "\<exists>s'. runSteps fs s = Inr s' \<and> P s'"
  using assms
proof (induction fs arbitrary: s)
  case Nil
  then show ?case by simp
next
  case (Cons f fs)
  obtain t' where t: "f s = Inr t'" "P t'"
    using Cons.prems(1) [of f s] Cons.prems(2) by auto
  have "\<exists>s'. runSteps fs t' = Inr s' \<and> P s'"
    using Cons.IH [of t'] Cons.prems(1) t(2) by simp
  then show ?case using t(1) by simp
qed

lemma proxyResolved_lookups:
  assumes "proxyResolved p t"
  shows "mapArgs t ''-socks'' = None" "mapArgs t ''-paytxfee'' = None"
    "mapArgs t ''-mininput'' = None" "mapArgs t ''-wallet'' = None"
    "mapArgs t ''-masternodepaymentskey'' = None" "mapArgs t ''-sporkkey'' = None"
    "mapArgs t ''-salvagewallet'' = None" "mapArgs t ''-onlynet'' = None"
    "mapArgs t ''-tor'' = None" "mapArgs t ''-bind'' = None"
  using assms by (simp_all add: proxyResolved_def)

lemma SoftSetBoolArg_vfLimited [simp]:
  "vfLimited (snd (SoftSetBoolArg a b s)) = vfLimited s"
  by (simp add: SoftSetBoolArg_def SoftSetArg_def)

lemma rules_vfLimited [simp]:
  "vfLimited (ruleTestNet e s) = vfLimited s" "vfLimited (ruleBind e s) = vfLimited s"
  "vfLimited (ruleConnect e s) = vfLimited s" "vfLimited (ruleProxy e s) = vfLimited s"
  "vfLimited (ruleNoListen e s) = vfLimited s" "vfLimited (ruleExternalip e s) = vfLimited s"
  "vfLimited (ruleSalvagewallet e s) = vfLimited s"
  by (simp_all add: ruleTestNet_def ruleBind_def ruleConnect_def ruleProxy_def
      ruleNoListen_def ruleExternalip_def ruleSalvagewallet_def)

lemma parameterInteraction_vfLimited [simp]:
  "vfLimited (parameterInteraction e s) = vfLimited s"
  by (simp add: parameterInteraction_def interactionRules_def)

lemma parameterInteraction_proxy_only:
  assumes args: "mapArgs s = [''-proxy'' \<mapsto> p]" and zero: "\<not> interpretBool e ''0''"
  shows "mapArgs (parameterInteraction e s) =
           (mapArgs (ruleTestNet e s))(''-listen'' \<mapsto> ''0'', ''-discover'' \<mapsto> ''0'',
              ''-upnp'' \<mapsto> ''0'')"
proof -
  define s1 where "s1 = ruleTestNet e s"
  have k: "mapArgs s1 k = mapArgs s k" if "k \<noteq> ''-irc''" for k
    using that by (simp add: s1_def ruleTestNet_def SoftSetBoolArg_other)
  have f: "mapArgs s1 ''-bind'' = None" "mapArgs s1 ''-connect'' = None"
    "mapArgs s1 ''-proxy'' = Some p" "mapArgs s1 ''-listen'' = None"
    "mapArgs s1 ''-discover'' = None" "mapArgs s1 ''-upnp'' = None"
    "mapArgs s1 ''-externalip'' = None" "mapArgs s1 ''-salvagewallet'' = None"
    using args by (simp_all add: k)
  have b: "ruleBind e s1 = s1"
    by (simp add: ruleBind_def count_arg_def f)
  have c: "ruleConnect e s1 = s1"
    by (simp add: ruleConnect_def count_arg_def f)
  define s2 where "s2 = ruleProxy e s1"
  have p2: "mapArgs s2 = (mapArgs s1)(''-listen'' \<mapsto> ''0'', ''-discover'' \<mapsto> ''0'')"
    by (simp add: s2_def ruleProxy_def count_arg_def f SoftSetBoolArg_def SoftSetArg_def)
  define s3 where "s3 = ruleNoListen e s2"
  have p3: "mapArgs s3 = (mapArgs s2)(''-upnp'' \<mapsto> ''0'')"
    using zero
    by (simp add: s3_def ruleNoListen_def GetBoolArg_def count_arg_def p2 f SoftSetBoolArg_def
        SoftSetArg_def)
  have d: "ruleExternalip e s3 = s3"
    by (simp add: ruleExternalip_def count_arg_def p3 p2 f)
  have g: "ruleSalvagewallet e s3 = s3"
    by (simp add: ruleSalvagewallet_def GetBoolArg_def p3 p2 f)
  have "parameterInteraction e s = s3"
    by (simp add: parameterInteraction_def interactionRules_def s1_def [symmetric] b c
        s2_def [symmetric] s3_def [symmetric] d g)
  then show ?thesis
    by (simp add: p3 p2 s1_def)
qed

lemma parameterInteraction_proxyResolved:
  assumes args: "mapArgs s = [''-proxy'' \<mapsto> p]" and zero: "\<not> interpretBool e ''0''"
    and unlimited: "\<forall>net. \<not> vfLimited s net"
  shows "proxyResolved p (parameterInteraction e s)"
proof -
  have k: "mapArgs (ruleTestNet e s) k = mapArgs s k" if "k \<noteq> ''-irc''" for k
    using that by (simp add: ruleTestNet_def SoftSetBoolArg_other)
  show ?thesis
    unfolding proxyResolved_def
    using unlimited args
    by (simp add: parameterInteraction_proxy_only [OF args zero] k)
qed

lemma proxyResolved_cong:
  "proxyResolved p t \<Longrightarrow> mapArgs t' = mapArgs t \<Longrightarrow> vfLimited t' = vfLimited t
     \<Longrightarrow> proxyResolved p t'"
  by (simp add: proxyResolved_def)

lemma pure_steps_vfLimited [simp]:
  "vfLimited (InitializeCollections e s) = vfLimited s"
  "vfLimited (stepEarlyArgs e s) = vfLimited s"
  "vfLimited (stepDebug e s) = vfLimited s"
  "vfLimited (stepLogFlags e s) = vfLimited s"
  "vfLimited (stepTimeout e s) = vfLimited s"
  "vfLimited (stepCoinFlags e s) = vfLimited s"
  "vfLimited (stepShrink e s) = vfLimited s"
  "vfLimited (emit ev s) = vfLimited s"
  by (simp_all add: InitializeCollections_def set_empty_key_def set_deleted_key_def stepEarlyArgs_def stepDebug_def stepLogFlags_def
      stepTimeout_def stepCoinFlags_def stepShrink_def emit_def Let_def)

lemma config_network_split:
  "stepsConfig e @ stepsNetwork e =
     [pure (InitializeCollections e), pure (stepEarlyArgs e), stepSelectParams e,
      pure (parameterInteraction e)] @ stepsMiddle e @ [stepProxy e, stepListen e]"
  by (simp add: stepsConfig_def stepsNetwork_def stepsMiddle_def)

lemma stepsMiddle_proxy_only:
  assumes I: "proxyResolved p t"
    and sanity: "ECC_InitSanityCheck e"
    and lock: "lock_try_lock e"
    and wallet: "ENABLE_WALLET e \<longrightarrow> plainFilename e ''wallet.dat''
                   \<and> (bitdb_Open_first e \<or> bitdb_Open_retry e)
                   \<and> (walletFileExists e \<longrightarrow> bitdb_Verify e \<noteq> RECOVER_FAIL)"
    and f: "f \<in> set (stepsMiddle e)"
  shows "\<exists>t'. f t = Inr t' \<and> proxyResolved p t'"
proof -
  note L = proxyResolved_lookups [OF I]
  have keep: "proxyResolved p t'" if "mapArgs t' = mapArgs t" "vfLimited t' = vfLimited t" for t'
    using proxyResolved_cong [OF I that] .
  have verify: "\<exists>t'. walletVerify e u = Inr t' \<and> mapArgs t' = mapArgs t \<and> vfLimited t' = vfLimited t"
    if "ENABLE_WALLET e" "mapArgs u = mapArgs t" "vfLimited u = vfLimited t" for u
    using that wallet L by (auto simp: walletVerify_def GetBoolArg_def)
  have a: "\<exists>t'. stepSocks e t = Inr t' \<and> mapArgs t' = mapArgs t \<and> vfLimited t' = vfLimited t"
    using L by (simp add: stepSocks_def count_arg_def)
  have b: "\<exists>t'. stepPaytxfee e t = Inr t' \<and> mapArgs t' = mapArgs t \<and> vfLimited t' = vfLimited t"
    using L by (simp add: stepPaytxfee_def)
  have c: "\<exists>t'. stepMininput e t = Inr t' \<and> mapArgs t' = mapArgs t \<and> vfLimited t' = vfLimited t"
    using L by (simp add: stepMininput_def)
  have d: "\<exists>t'. stepSanity e t = Inr t' \<and> mapArgs t' = mapArgs t \<and> vfLimited t' = vfLimited t"
    using sanity by (simp add: stepSanity_def InitSanityCheck_def)
  have g: "\<exists>t'. stepWalletName e t = Inr t' \<and> mapArgs t' = mapArgs t \<and> vfLimited t' = vfLimited t"
    using wallet L by (simp add: stepWalletName_def GetArgStr_def Let_def)
  have h: "\<exists>t'. stepLock e t = Inr t' \<and> mapArgs t' = mapArgs t \<and> vfLimited t' = vfLimited t"
    using lock by (simp add: stepLock_def)
  have i: "\<exists>t'. stepControlKeys e t = Inr t' \<and> mapArgs t' = mapArgs t \<and> vfLimited t' = vfLimited t"
    using L by (simp add: stepControlKeys_def count_arg_def)
  have j: "\<exists>t'. stepWalletDb e t = Inr t' \<and> mapArgs t' = mapArgs t \<and> vfLimited t' = vfLimited t"
  proof (cases "ENABLE_WALLET e \<and> \<not> fDisableWallet t")
    case False
    then show ?thesis by (auto simp: stepWalletDb_def)
  next
    case True
    show ?thesis
    proof (cases "bitdb_Open_first e")
      case True
      then show ?thesis
        using \<open>ENABLE_WALLET e \<and> \<not> fDisableWallet t\<close> verify [of t]
        by (simp add: stepWalletDb_def)
    next
      case False
      then have "bitdb_Open_retry e"
        using wallet \<open>ENABLE_WALLET e \<and> \<not> fDisableWallet t\<close> by simp
      then show ?thesis
        using False \<open>ENABLE_WALLET e \<and> \<not> fDisableWallet t\<close>
          verify [of "emit (Util RenameDatabase) t"]
        by (simp add: stepWalletDb_def Let_def)
    qed
  qed
  have k: "\<exists>t'. stepOnlynet e t = Inr t' \<and> mapArgs t' = mapArgs t \<and> vfLimited t' = vfLimited t"
    using L by (simp add: stepOnlynet_def count_arg_def)
  have "f = pure (stepDebug e) \<or> f = stepSocks e \<or> f = pure (stepLogFlags e)
      \<or> f = pure (stepTimeout e) \<or> f = stepPaytxfee e \<or> f = pure (stepCoinFlags e)
      \<or> f = stepMininput e \<or> f = stepSanity e \<or> f = stepWalletName e \<or> f = stepLock e
      \<or> f = pure (stepShrink e) \<or> f = stepControlKeys e \<or> f = stepWalletDb e
      \<or> f = pure (emit (Net RegisterNodeSignals)) \<or> f = stepOnlynet e"
    using f by (simp add: stepsMiddle_def)
  then have "\<exists>t'. f t = Inr t' \<and> mapArgs t' = mapArgs t \<and> vfLimited t' = vfLimited t"
    using a b c d g h i j k by (auto simp: pure_def)
  then show ?thesis using keep by blast
qed

lemma stepProxy_proxy_only:
  assumes I: "proxyResolved p t" and valid: "IsValid e (CService_port p 9050)"
  shows "\<exists>t'. stepProxy e t = Inr t' \<and> mapArgs t' = mapArgs t
           \<and> proxyInfo t' NET_IPV4 = Some (CService_port p 9050)
           \<and> proxyInfo t' NET_IPV6 = Some (CService_port p 9050)"
proof -
  note L = proxyResolved_lookups [OF I]
  have P: "mapArgs t ''-proxy'' = Some p" "\<not> vfLimited t NET_IPV4" "\<not> vfLimited t NET_IPV6"
    using I by (simp_all add: proxyResolved_def)
  show ?thesis
    using valid
    by (simp add: stepProxy_def proxyBlock_def torBlock_def P L Let_def IsLimited_def
        SetProxy_def SetNameProxy_def count_arg_def emit_def)
qed

lemma stepListen_proxy_only:
  assumes "mapArgs t ''-listen'' = Some ''0''" "mapArgs t ''-discover'' = Some ''0''"
    and "\<not> interpretBool e ''0''"
  shows "stepListen e t =
     Inr (t\<lparr>fNoListen := True, fDiscover := False, fNameLookup := GetBoolArg e t ''-dns'' True\<rparr>)"
  using assms by (simp add: stepListen_def GetBoolArg_def Let_def)

text \<open>
  C8. When the operator supplies only a proxy, no network class is limited, the value
  \<open>0\<close> reads as false, and the calls made up to the network set-up succeed (chain
  parameters, sanity check, wallet file name, data directory lock, wallet database, a
  valid proxy address), then \<open>AppInit2\<close> gets through its configuration and network
  steps, and in the state reached listening is off, discovery is off, both options are
  recorded as \<open>0\<close>, and the proxy is registered for IPv4 and for IPv6.
\<close>

theorem proxy_only_configuration:
  assumes args: "mapArgs s = [''-proxy'' \<mapsto> p]"
    and zero: "\<not> interpretBool e ''0''"
    and unlimited: "\<forall>net. \<not> vfLimited s net"
    and params: "SelectParamsFromCommandLine e"
    and sanity: "ECC_InitSanityCheck e"
    and lock: "lock_try_lock e"
    and wallet: "ENABLE_WALLET e \<longrightarrow> plainFilename e ''wallet.dat''
                   \<and> (bitdb_Open_first e \<or> bitdb_Open_retry e)
                   \<and> (walletFileExists e \<longrightarrow> bitdb_Verify e \<noteq> RECOVER_FAIL)"
    and valid: "IsValid e (CService_port p 9050)"
  shows "\<exists>s'. runSteps (stepsConfig e @ stepsNetwork e) s = Inr s'
           \<and> fNoListen s' \<and> \<not> fDiscover s'
           \<and> mapArgs s' ''-listen'' = Some ''0'' \<and> mapArgs s' ''-discover'' = Some ''0''
           \<and> proxyInfo s' NET_IPV4 = Some (CService_port p 9050)
           \<and> proxyInfo s' NET_IPV6 = Some (CService_port p 9050)"
proof -
  define s0 where "s0 = stepEarlyArgs e (InitializeCollections e s)"
  have "mapArgs s0 = [''-proxy'' \<mapsto> p]" "\<forall>net. \<not> vfLimited s0 net"
    using args unlimited by (simp_all add: s0_def)
  then have I4: "proxyResolved p (parameterInteraction e s0)"
    using zero by (simp add: parameterInteraction_proxyResolved)
  have first: "runSteps [pure (InitializeCollections e), pure (stepEarlyArgs e),
      stepSelectParams e, pure (parameterInteraction e)] s = Inr (parameterInteraction e s0)"
    using params by (simp add: pure_def stepSelectParams_def s0_def)
  obtain t where mid: "runSteps (stepsMiddle e) (parameterInteraction e s0) = Inr t"
    and It: "proxyResolved p t"
    using runSteps_all_Inr [of "stepsMiddle e" "proxyResolved p" "parameterInteraction e s0"]
      stepsMiddle_proxy_only [OF _ sanity lock wallet] I4
    by blast
  obtain t2 where px: "stepProxy e t = Inr t2" and m2: "mapArgs t2 = mapArgs t"
    and p4: "proxyInfo t2 NET_IPV4 = Some (CService_port p 9050)"
    and p6: "proxyInfo t2 NET_IPV6 = Some (CService_port p 9050)"
    using stepProxy_proxy_only [OF It valid] by blast
  have l2: "mapArgs t2 ''-listen'' = Some ''0''" "mapArgs t2 ''-discover'' = Some ''0''"
    using It m2 by (simp_all add: proxyResolved_def)
  have run: "runSteps (stepsConfig e @ stepsNetwork e) s =
      Inr (t2\<lparr>fNoListen := True, fDiscover := False, fNameLookup := GetBoolArg e t2 ''-dns'' True\<rparr>)"
  proof -
    have "runSteps (stepsConfig e @ stepsNetwork e) s = runSteps [stepProxy e, stepListen e] t"
      unfolding config_network_split
      by (simp only: runSteps_append first mid sum.case)
    then show ?thesis
      by (simp add: px stepListen_proxy_only [OF l2 zero])
  qed
  show ?thesis
    unfolding run using l2 p4 p6 by simp
qed

theorem proxy_only_configuration_witness:
  "mapArgs proxyOnlyArgs = [''-proxy'' \<mapsto> ''127.0.0.1:9050'']
   \<and> \<not> interpretBool collab0 ''0''
   \<and> (\<forall>net. \<not> vfLimited proxyOnlyArgs net)
   \<and> SelectParamsFromCommandLine collab0 \<and> ECC_InitSanityCheck collab0 \<and> lock_try_lock collab0
   \<and> ENABLE_WALLET collab0 \<and> plainFilename collab0 ''wallet.dat'' \<and> bitdb_Open_first collab0
   \<and> bitdb_Verify collab0 \<noteq> RECOVER_FAIL
   \<and> IsValid collab0 (CService_port ''127.0.0.1:9050'' 9050)
   \<and> (\<exists>s'. runSteps (stepsConfig collab0 @ stepsNetwork collab0) proxyOnlyArgs = Inr s'
          \<and> fNoListen s' \<and> \<not> fDiscover s'
          \<and> mapArgs s' ''-listen'' = Some ''0'' \<and> mapArgs s' ''-discover'' = Some ''0''
          \<and> proxyInfo s' NET_IPV4 = Some (CService_port ''127.0.0.1:9050'' 9050)
          \<and> proxyInfo s' NET_IPV6 = Some (CService_port ''127.0.0.1:9050'' 9050))"
proof -
  have args: "mapArgs proxyOnlyArgs = [''-proxy'' \<mapsto> ''127.0.0.1:9050'']"
    by (simp add: proxyOnlyArgs_def node0_def)
  have zero: "\<not> interpretBool collab0 ''0''" by code_simp
  have unlimited: "\<forall>net. \<not> vfLimited proxyOnlyArgs net"
    by (simp add: proxyOnlyArgs_def node0_def)
  have params: "SelectParamsFromCommandLine collab0" by code_simp
  have sanity: "ECC_InitSanityCheck collab0" by code_simp
  have lock: "lock_try_lock collab0" by code_simp
  have w1: "ENABLE_WALLET collab0" by code_simp
  have w2: "plainFilename collab0 ''wallet.dat''" by code_simp
  have w3: "bitdb_Open_first collab0" by code_simp
  have w4: "bitdb_Verify collab0 \<noteq> RECOVER_FAIL" by code_simp
  have wallet: "ENABLE_WALLET collab0 \<longrightarrow> plainFilename collab0 ''wallet.dat''
                   \<and> (bitdb_Open_first collab0 \<or> bitdb_Open_retry collab0)
                   \<and> (walletFileExists collab0 \<longrightarrow> bitdb_Verify collab0 \<noteq> RECOVER_FAIL)"
    using w2 w3 w4 by simp
  have valid: "IsValid collab0 (CService_port ''127.0.0.1:9050'' 9050)" by code_simp
  note T = proxy_only_configuration [OF args zero unlimited params sanity lock wallet valid]
  show ?thesis
    by (intro conjI args zero unlimited params sanity lock w1 w2 w3 w4 valid T)
qed

subsection \<open>Masternode together with lite mode\<close>

lemma started_update [simp]:
  "started (mapArgs_update f1 s) = started s"
  "started (mapMultiArgs_update f2 s) = started s"
  "started (setStakeSeen_update f3 s) = started s"
  "started (setStakeSeenOrphan_update f4 s) = started s"
  "started (nNodeLifespan_update f5 s) = started s"
  "started (fUseFastIndex_update f6 s) = started s"
  "started (nMinerSleep_update f7 s) = started s"
  "started (nDerivationMethodIndex_update f8 s) = started s"
  "started (fDebug_update f9 s) = started s"
  "started (fDebugSmsg_update f10 s) = started s"
  "started (fDebugBacktrace_update f11 s) = started s"
  "started (fNoSmsg_update f12 s) = started s"
  "started (fPrintToConsole_update f13 s) = started s"
  "started (fLogTimestamps_update f14 s) = started s"
  "started (fDisableWallet_update f15 s) = started s"
  "started (nConnectTimeout_update f16 s) = started s"
  "started (nTransactionFee_update f17 s) = started s"
  "started (fConfChange_update f18 s) = started s"
  "started (fMinimizeCoinAge_update f19 s) = started s"
  "started (nMinimumInputValue_update f20 s) = started s"
  "started (strWalletFileName_update f21 s) = started s"
  "started (fOnlyTor_update f22 s) = started s"
  "started (vfLimited_update f23 s) = started s"
  "started (proxyInfo_update f24 s) = started s"
  "started (nameProxy_update f25 s) = started s"
  "started (fNoListen_update f26 s) = started s"
  "started (fDiscover_update f27 s) = started s"
  "started (fNameLookup_update f28 s) = started s"
  "started (nReserveBalance_update f29 s) = started s"
  "started (pindexBest_update f30 s) = started s"
  "started (pindexGenesisBlock_update f31 s) = started s"
  "started (pwalletMain_update f32 s) = started s"
  "started (strErrors_update f33 s) = started s"
  "started (nWalletDBUpdated_update f34 s) = started s"
  "started (fRequestShutdown_update f35 s) = started s"
  "started (fMasterNode_update f36 s) = started s"
  "started (strMasterNodeAddr_update f37 s) = started s"
  "started (strMasterNodePrivKey_update f38 s) = started s"
  "started (fEnableDarksend_update f39 s) = started s"
  "started (nDarksendRounds_update f40 s) = started s"
  "started (nLiquidityProvider_update f41 s) = started s"
  "started (nAnonymizeSwippAmount_update f42 s) = started s"
  "started (nInstantXDepth_update f43 s) = started s"
  "started (fLiteMode_update f44 s) = started s"
  "started (cs_Shutdown_update f45 s) = started s"
  by (simp_all add: started_def)

lemma started_emit [simp]: "ev \<notin> set serviceEvents \<Longrightarrow> started (emit ev s) = started s"
  by (simp add: started_def emit_def)

lemma started_net [simp]:
  "started (SetLimited net s) = started s"
  "started (SetProxy net a s) = started s"
  "started (SetNameProxy a s) = started s"
  by (simp_all add: serviceEvents_def SetLimited_def SetProxy_def SetNameProxy_def)

lemma started_onlynetLoop:
  "started (outState (case onlynetLoop e xs nets s of Inl x \<Rightarrow> Inl x
                        | Inr (n, s1) \<Rightarrow> Inr (limitOthers n s1))) = started s"
proof (induction xs arbitrary: nets s)
  case Nil
  show ?case by (simp add: serviceEvents_def limitOthers_def)
next
  case (Cons x xs)
  show ?case using Cons.IH by (simp add: serviceEvents_def Let_def)
qed

lemma started_Bind [simp]: "started (snd (Bind e a f s)) = started s"
  by (simp add: serviceEvents_def Bind_def)

lemma started_bindLoop:
  "started (outState (case bindLoop e xs b s of Inl x \<Rightarrow> Inl x
                        | Inr (fb, s2) \<Rightarrow> if \<not> fb then leave r s2 else Inr s2)) = started s"
proof (induction xs arbitrary: b s)
  case Nil
  show ?case by (simp add: serviceEvents_def leave_def)
next
  case (Cons x xs)
  show ?case
  proof (cases "Lookup e x")
    case None
    then show ?thesis by (simp add: serviceEvents_def)
  next
    case (Some a)
    obtain b1 s1 where B: "Bind e a True s = (b1, s1)" by (cases "Bind e a True s")
    have "started s1 = started s" using started_Bind [of e a True s] B by (simp add: serviceEvents_def)
    then show ?thesis using Some B Cons.IH [of "b \<or> b1" s1] by (simp add: serviceEvents_def)
  qed
qed

lemma started_bindAny [simp]: "started (snd (bindAny e s)) = started s"
  by (simp add: serviceEvents_def bindAny_def Bind_def split: prod.splits if_splits)

lemma started_externalipLoop: "started (outState (externalipLoop e xs s)) = started s"
  by (induction xs arbitrary: s) (simp_all add: serviceEvents_def)

lemma started_seednodes: "started (foldl (\<lambda>s' d. emit (Net (AddOneShot d)) s') s xs) = started s"
  by (induction xs arbitrary: s) (simp_all add: serviceEvents_def)

lemma started_pure_steps [simp]:
  "started (InitializeCollections e s) = started s"
  "started (stepEarlyArgs e s) = started s"
  "started (stepDebug e s) = started s"
  "started (stepLogFlags e s) = started s"
  "started (stepTimeout e s) = started s"
  "started (stepCoinFlags e s) = started s"
  "started (stepShrink e s) = started s"
  "started (stepSeednodes e s) = started s"
  "started (stepImport e s) = started s"
  "started (stepDarksend e s) = started s"
  "started (stepAnonymize e s) = started s"
  "started (stepInstantX e s) = started s"
  "started (stepReindexAddr e s) = started s"
  by (simp_all add: serviceEvents_def InitializeCollections_def set_empty_key_def set_deleted_key_def stepEarlyArgs_def stepDebug_def stepLogFlags_def
      stepTimeout_def stepCoinFlags_def stepShrink_def stepSeednodes_def started_seednodes
      stepImport_def stepDarksend_def stepAnonymize_def stepInstantX_def
      stepReindexAddr_def Let_def)

lemma started_wallet [simp]:
  "started (walletUpgrade e f s) = started s"
  "started (walletFirstRun e f s) = started s"
  "started (walletRescan e s) = started s"
  by (simp_all add: serviceEvents_def walletUpgrade_def walletFirstRun_def walletRescan_def Let_def)

lemma started_steps_a [simp]:
  "started (outState (stepSelectParams e s)) = started s"
  "started (outState (stepSocks e s)) = started s"
  "started (outState (stepSanity e s)) = started s"
  "started (outState (stepWalletName e s)) = started s"
  "started (outState (stepLock e s)) = started s"
  "started (outState (stepControlKeys e s)) = started s"
  "started (outState (walletVerify e s)) = started s"
  "started (outState (stepLoadBlockIndexTest e s)) = started s"
  "started (outState (stepDiskSpace e s)) = started s"
  "started (outState (stepLiteMode e s)) = started s"
  by (simp_all add: serviceEvents_def stepSelectParams_def stepSocks_def
      stepSanity_def stepWalletName_def stepLock_def stepControlKeys_def walletVerify_def
      stepLoadBlockIndexTest_def stepDiskSpace_def StartShutdown_call_def
      stepLiteMode_def leave_def Let_def)

lemma started_steps_b [simp]:
  "started (outState (stepPaytxfee e s)) = started s"
  "started (outState (stepMininput e s)) = started s"
  "started (outState (stepReserveBalance e s)) = started s"
  "started (outState (stepPrintBlocks e s)) = started s"
  by (simp_all add: serviceEvents_def stepPaytxfee_def stepMininput_def stepReserveBalance_def stepPrintBlocks_def
      leave_def split: option.splits)

lemma started_steps_c [simp]:
  "started (outState (stepLoadBlockIndex e s)) = started s"
  by (simp add: serviceEvents_def stepLoadBlockIndex_def leave_def Let_def split: option.splits prod.splits)

lemma started_steps_d [simp]:
  "started (outState (stepLoadWallet e s)) = started s"
  by (cases "LoadWallet e") (simp add: serviceEvents_def stepLoadWallet_def leave_def Let_def)

lemma started_steps_e [simp]:
  "started (outState (stepMasternode e s)) = started s"
  by (simp add: serviceEvents_def stepMasternode_def leave_def Let_def)

lemma started_stepWalletDb [simp]: "started (outState (stepWalletDb e s)) = started s"
  by (simp add: serviceEvents_def stepWalletDb_def leave_def Let_def)

lemma started_stepOnlynet [simp]: "started (outState (stepOnlynet e s)) = started s"
  by (simp add: serviceEvents_def stepOnlynet_def started_onlynetLoop)

lemma started_proxyBlock:
  "proxyBlock e s = Inl (r, s') \<Longrightarrow> started s' = started s"
  "proxyBlock e s = Inr (a, s') \<Longrightarrow> started s' = started s"
  by (auto simp: serviceEvents_def proxyBlock_def Let_def split: option.splits if_splits)

lemma started_torBlock [simp]: "started (outState (torBlock e a s)) = started s"
  by (simp add: serviceEvents_def torBlock_def leave_def Let_def split: option.splits)

lemma started_stepProxy [simp]: "started (outState (stepProxy e s)) = started s"
proof (cases "proxyBlock e s")
  case (Inl x)
  then show ?thesis using started_proxyBlock(1) [of e s "fst x" "snd x"]
    by (simp add: serviceEvents_def stepProxy_def)
next
  case (Inr y)
  then show ?thesis using started_proxyBlock(2) [of e s "fst y" "snd y"]
    by (cases y) (simp add: serviceEvents_def stepProxy_def)
qed

lemma started_listen_bind:
  "started (outState (case (if c then bindLoop e xs False s1 else Inr (bindAny e s1)) of
                        Inl x \<Rightarrow> Inl x
                      | Inr (fBound, s2) \<Rightarrow> if \<not> fBound then leave r s2 else Inr s2))
   = started s1"
proof (cases c)
  case True
  then show ?thesis
    using started_bindLoop [where e = e and xs = xs and b = False and s = s1 and r = r] by (simp add: serviceEvents_def)
next
  case False
  obtain b s2 where B: "bindAny e s1 = (b, s2)" by (cases "bindAny e s1")
  have "started s2 = started s1" using started_bindAny [of e s1] B by (simp add: serviceEvents_def)
  then show ?thesis using False B by (simp add: serviceEvents_def leave_def)
qed

lemma started_stepListen [simp]: "started (outState (stepListen e s)) = started s"
  by (simp add: serviceEvents_def stepListen_def Let_def started_listen_bind)

lemma started_stepExternalip [simp]: "started (outState (stepExternalip e s)) = started s"
  by (simp add: serviceEvents_def stepExternalip_def started_externalipLoop)

lemma started_rules [simp]:
  "started (snd (SoftSetBoolArg a b s)) = started s"
  "started (ruleTestNet e s) = started s" "started (ruleBind e s) = started s"
  "started (ruleConnect e s) = started s" "started (ruleProxy e s) = started s"
  "started (ruleNoListen e s) = started s" "started (ruleExternalip e s) = started s"
  "started (ruleSalvagewallet e s) = started s"
  by (simp_all add: SoftSetBoolArg_def SoftSetArg_def ruleTestNet_def ruleBind_def
      ruleConnect_def ruleProxy_def ruleNoListen_def ruleExternalip_def ruleSalvagewallet_def)

lemma started_parameterInteraction [simp]: "started (parameterInteraction e s) = started s"
  by (simp add: parameterInteraction_def interactionRules_def)

lemma AppInit2_steps_litemode:
  "AppInit2_steps e =
     (stepsBeforeModes e @ stepsModes e) @ [stepLiteMode e] @ stepsStart e"
  by (simp add: AppInit2_steps_def stepsBeforeModes_def)

lemma before_litemode_started:
  assumes "f \<in> set (stepsBeforeModes e @ stepsModes e)"
  shows "started (outState (f t)) = started t"
  using assms
  by (auto simp: stepsBeforeModes_def stepsConfig_def stepsNetwork_def stepsLoad_def
      stepsModes_def pure_def serviceEvents_def)

lemma modes_fMasterNode [simp]:
  "fMasterNode (stepDarksend e s) = fMasterNode s"
  "fMasterNode (stepAnonymize e s) = fMasterNode s"
  "fMasterNode (stepInstantX e s) = fMasterNode s"
  by (simp_all add: stepInstantX_def stepAnonymize_def stepDarksend_def emit_def Let_def)

lemma stepLiteMode_both:
  "fMasterNode t \<Longrightarrow> GetBoolArg e t ''-litemode'' False \<Longrightarrow>
     stepLiteMode e t = Inl (InitError MasternodeInLitemode, t\<lparr>fLiteMode := True\<rparr>)"
  by (simp add: stepLiteMode_def Let_def leave_def)

lemma runSteps_around:
  "runSteps (fs @ [g] @ hs) t =
     (case runSteps fs t of
        Inl x \<Rightarrow> Inl x
      | Inr s1 \<Rightarrow> (case g s1 of Inl x \<Rightarrow> Inl x | Inr s2 \<Rightarrow> runSteps hs s2))"
  by (cases "runSteps fs t") (simp_all add: runSteps_append)

text \<open>
  C2, as stated, fails: with masternode and lite mode both set, \<open>AppInit2\<close> returns the
  lite-mode error only after it has tried to bind the two wildcard listen addresses.
\<close>

theorem masternode_litemode_after_bind_counterexample:
  "fst (AppInit2 collab0 masternodeLiteArgs) = InitError MasternodeInLitemode
   \<and> Net (BindListenPort CService_in6addr_any)
       \<in> set (trace (snd (AppInit2 collab0 masternodeLiteArgs)))
   \<and> Net (BindListenPort CService_inaddr_any)
       \<in> set (trace (snd (AppInit2 collab0 masternodeLiteArgs)))"
  by code_simp

text \<open>
  C2, amended. With masternode and lite mode both set, \<open>AppInit2\<close> never reaches its last
  line: it leaves through an error or an early return, and none of the calls that start
  peer networking, the RPC service or the mixing, staking and wallet-flush threads has
  been made. If no earlier statement leaves first, the return is the lite-mode error;
  the check comes after the network set-up, the listen bind included.
\<close>

theorem masternode_litemode_fails:
  assumes mn: "GetBoolArg e s ''-masternode'' False"
    and lite: "GetBoolArg e s ''-litemode'' False"
  shows "(\<exists>r s'. runSteps (AppInit2_steps e) s = Inl (r, s') \<and> AppInit2 e s = (r, s')
             \<and> started s' = started s)
         \<and> (\<forall>s1. runSteps (stepsBeforeModes e @ stepsModes e) s = Inr s1 \<longrightarrow>
               AppInit2 e s = (InitError MasternodeInLitemode, s1\<lparr>fLiteMode := True\<rparr>))"
proof -
  let ?pre = "stepsBeforeModes e @ stepsModes e"
  have split: "runSteps (AppInit2_steps e) t =
      (case runSteps ?pre t of
         Inl x \<Rightarrow> Inl x
       | Inr s1 \<Rightarrow>
           (case stepLiteMode e s1 of
              Inl x \<Rightarrow> Inl x
            | Inr s2 \<Rightarrow> runSteps (stepsStart e) s2))" for t
    unfolding AppInit2_steps_litemode by (rule runSteps_around)
  have inv: "started (outState (runSteps ?pre s)) = started s"
    by (rule runSteps_invariant [where P = "\<lambda>t. started t = started s"])
       (simp_all add: before_litemode_started)
  have check: "stepLiteMode e s1 = Inl (InitError MasternodeInLitemode, s1\<lparr>fLiteMode := True\<rparr>)"
    if run: "runSteps ?pre s = Inr s1" for s1
  proof -
    from run obtain s0 where a: "runSteps (stepsBeforeModes e) s = Inr s0"
      and b: "runSteps (stepsModes e) s0 = Inr s1"
      by (cases "runSteps (stepsBeforeModes e) s") (simp_all add: runSteps_append)
    from b obtain sm where c: "stepMasternode e s0 = Inr sm"
      and d: "s1 = stepInstantX e (stepAnonymize e (stepDarksend e sm))"
      by (cases "stepMasternode e s0") (auto simp: stepsModes_def pure_def)
    have k: "mapArgs s0 ''-masternode'' = mapArgs s ''-masternode''"
      "mapArgs s0 ''-litemode'' = mapArgs s ''-litemode''"
      using stepsBeforeModes_other [OF a, of "''-masternode''"]
        stepsBeforeModes_other [OF a, of "''-litemode''"]
      by (simp_all add: softKeys_def)
    have "fMasterNode sm" "mapArgs sm = mapArgs s0"
      using stepMasternode_Inr [OF c] k(1) mn by (simp_all add: GetBoolArg_def)
    then have "fMasterNode s1" "GetBoolArg e s1 ''-litemode'' False"
      using d k(2) lite by (simp_all add: GetBoolArg_def)
    then show ?thesis by (rule stepLiteMode_both)
  qed
  have fails: "\<exists>r s'. runSteps (AppInit2_steps e) s = Inl (r, s') \<and> AppInit2 e s = (r, s')
             \<and> started s' = started s"
  proof (cases "runSteps ?pre s")
    case (Inl x)
    then have "runSteps (AppInit2_steps e) s = Inl (fst x, snd x)"
      "AppInit2 e s = (fst x, snd x)"
      by (simp_all add: AppInit2_def split)
    moreover have "started (snd x) = started s" using inv Inl by simp
    ultimately show ?thesis by blast
  next
    case (Inr s1)
    then have "runSteps (AppInit2_steps e) s
        = Inl (InitError MasternodeInLitemode, s1\<lparr>fLiteMode := True\<rparr>)"
      "AppInit2 e s = (InitError MasternodeInLitemode, s1\<lparr>fLiteMode := True\<rparr>)"
      using check [OF Inr]
      by (simp_all add: AppInit2_def split)
    moreover have "started (s1\<lparr>fLiteMode := True\<rparr>) = started s" using inv Inr by simp
    ultimately show ?thesis by blast
  qed
  have named: "AppInit2 e s = (InitError MasternodeInLitemode, s1\<lparr>fLiteMode := True\<rparr>)"
    if run: "runSteps ?pre s = Inr s1" for s1
    using check [OF run] run
    by (simp add: AppInit2_def split)
  show ?thesis
    using fails named by blast
qed

theorem masternode_litemode_fails_witness:
  "GetBoolArg collab0 masternodeLiteArgs ''-masternode'' False
   \<and> GetBoolArg collab0 masternodeLiteArgs ''-litemode'' False
   \<and> fst (AppInit2 collab0 masternodeLiteArgs) = InitError MasternodeInLitemode
   \<and> started (snd (AppInit2 collab0 masternodeLiteArgs)) = []"
proof -
  have h1: "GetBoolArg collab0 masternodeLiteArgs ''-masternode'' False" by code_simp
  have h2: "GetBoolArg collab0 masternodeLiteArgs ''-litemode'' False" by code_simp
  have e: "started masternodeLiteArgs = []" by code_simp
  have "\<not> isl (runSteps (stepsBeforeModes collab0 @ stepsModes collab0) masternodeLiteArgs)"
    by code_simp
  then obtain s1 where
    run: "runSteps (stepsBeforeModes collab0 @ stepsModes collab0) masternodeLiteArgs = Inr s1"
    by (cases "runSteps (stepsBeforeModes collab0 @ stepsModes collab0) masternodeLiteArgs")
       simp_all
  note T = masternode_litemode_fails [OF h1 h2]
  have a: "fst (AppInit2 collab0 masternodeLiteArgs) = InitError MasternodeInLitemode"
    using T [THEN conjunct2] run by simp
  have b: "started (snd (AppInit2 collab0 masternodeLiteArgs)) = []"
    using T [THEN conjunct1] e by auto
  show ?thesis
    by (intro conjI h1 h2 a b)
qed

end
